theory Spec2Isabelle
  imports Complex_Main "HOL-Library.Extended_Nat"
begin

section \<open>Values of the host language\<close>

text \<open>
  The interpreter computes with JavaScript numbers. Grid coordinates, facings and health
  are integers throughout (the initial world holds integers and every primitive adds or
  subtracts integers), so the tank fields are modelled as \<open>int\<close>. The values of Omega
  expressions come from the numeric conversion of program text: a finite double is
  modelled by the rational number it denotes (the two zeros are not told apart: no
  operation of the interpreter distinguishes them), beside the two infinities and the
  not-a-number value. Reading a variable can also yield an object that is no number at
  all: the variable store is a plain object, and a name that the store does not hold is
  looked up in the prototype that every plain object has. \<open>Inherited name\<close> is the object
  found there under \<open>name\<close>.
\<close>

datatype jsval = Fin rat | PosInf | NegInf | NaN | Inherited string

text \<open>The properties of the prototype of plain objects, as the language standard lists
  them. All but one are built-in functions, given here with their \<open>length\<close>; the accessor
  \<open>__proto__\<close> yields the prototype object itself, which has no \<open>length\<close>.\<close>

definition object_prototype :: "(string \<times> nat option) list" where
  "object_prototype =
     [(''constructor'', Some 1),
      (''__defineGetter__'', Some 2),
      (''__defineSetter__'', Some 2),
      (''hasOwnProperty'', Some 1),
      (''__lookupGetter__'', Some 1),
      (''__lookupSetter__'', Some 1),
      (''isPrototypeOf'', Some 1),
      (''propertyIsEnumerable'', Some 1),
      (''toString'', Some 0),
      (''valueOf'', Some 0),
      (''toLocaleString'', Some 0),
      (''__proto__'', None)]"

definition inherited :: "string \<Rightarrow> nat option option" where
  "inherited name = map_of object_prototype name"

definition is_object :: "jsval \<Rightarrow> bool" where
  "is_object v = (case v of Inherited _ \<Rightarrow> True | _ \<Rightarrow> False)"

definition is_number :: "jsval \<Rightarrow> bool" where
  \<comment> \<open>a finite or infinite number: neither not-a-number nor an object\<close>
  "is_number v = (case v of Fin _ \<Rightarrow> True | PosInf \<Rightarrow> True | NegInf \<Rightarrow> True | _ \<Rightarrow> False)"

definition js_rem :: "int \<Rightarrow> int \<Rightarrow> int" where
  \<comment> \<open>the \<open>%\<close> operator on integers: the remainder has the sign of the dividend\<close>
  "js_rem a b = sgn a * (\<bar>a\<bar> mod \<bar>b\<bar>)"

definition digit_char :: "nat \<Rightarrow> char" where
  "digit_char d = ''0123456789'' ! (d mod 10)"

fun show_nat :: "nat \<Rightarrow> string" where
  "show_nat n = (if n < 10 then [digit_char n] else show_nat (n div 10) @ [digit_char (n mod 10)])"

definition show_int :: "int \<Rightarrow> string" where
  "show_int i = (if i < 0 then ''-'' @ show_nat (nat (- i)) else show_nat (nat i))"

fun frac_digits :: "nat \<Rightarrow> rat \<Rightarrow> string" where
  "frac_digits 0 q = []"
| "frac_digits (Suc k) q =
     (if q = 0 then [] else
        (let d = \<lfloor>q * 10\<rfloor> in digit_char (nat d) # frac_digits k (q * 10 - of_int d)))"

definition numToString :: "jsval \<Rightarrow> string" where
  \<comment> \<open>Conversion to text, as template literals perform it. Exact for the integers up to
      \<open>2^53\<close> in magnitude, for the infinities and for not-a-number. For the other finite
      values the host prints the shortest digits that read back as the same double, in
      exponent notation from \<open>10^21\<close> on and below \<open>10^-6\<close>; here they are printed as the
      positional decimal expansion, cut at 17 fraction digits, which is the same text for
      short fractions such as 2.5 only. The prototype object prints as the standard
      prescribes; the text of a built-in function is left to the host by the standard,
      and the one given is that of V8.\<close>
  "numToString v = (case v of
       PosInf \<Rightarrow> ''Infinity''
     | NegInf \<Rightarrow> ''-Infinity''
     | NaN \<Rightarrow> ''NaN''
     | Inherited name \<Rightarrow>
         (if name = ''__proto__'' then ''[object Object]''
          else ''function '' @ (if name = ''constructor'' then ''Object'' else name)
               @ ''() { [native code] }'')
     | Fin q \<Rightarrow>
         (if q = of_int \<lfloor>q\<rfloor> then show_int \<lfloor>q\<rfloor>
          else (if q < 0 then ''-'' else '''') @ show_nat (nat \<lfloor>\<bar>q\<bar>\<rfloor>) @ ''.'' @
               frac_digits 17 (\<bar>q\<bar> - of_int \<lfloor>\<bar>q\<bar>\<rfloor>)))"

section \<open>World model\<close>

record Tank =
  x_pos :: int
  y_pos :: int
  dir :: int
  hp :: int

record World =
  player :: Tank
  enemy :: Tank
  tick :: nat
  message :: string

definition GRID :: int where
  "GRID = 20"

definition makeInitialWorld :: World where
  "makeInitialWorld =
     \<lparr> player = \<lparr> x_pos = 2, y_pos = GRID - 3, dir = 0, hp = 100 \<rparr>,
       enemy = \<lparr> x_pos = GRID - 3, y_pos = 2, dir = 2, hp = 100 \<rparr>,
       tick = 0,
       message = '''' \<rparr>"

text \<open>Directions: 0=up, 1=right, 2=down, 3=left. An index outside the table reads
  \<open>undefined\<close>, and taking a field of it raises a TypeError. The second error value is
  no exception of the program: it marks the one step whose effect depends on the host, an
  assignment that makes a built-in function the prototype of the variable store (see
  \<open>assign_var\<close> below); nothing is stated about a run from there on.\<close>

datatype error = TypeError | HostDefined

definition DIRS :: "int \<Rightarrow> (int \<times> int) option" where
  "DIRS i = (if i = 0 then Some (0, -1)
             else if i = 1 then Some (1, 0)
             else if i = 2 then Some (0, 1)
             else if i = 3 then Some (-1, 0)
             else None)"

definition clamp :: "int \<Rightarrow> int \<Rightarrow> int \<Rightarrow> int" where
  "clamp v lo hi = max lo (min hi v)"

definition inBounds :: "int \<Rightarrow> int \<Rightarrow> bool" where
  "inBounds xx yy \<longleftrightarrow> xx \<ge> 0 \<and> xx < GRID \<and> yy \<ge> 0 \<and> yy < GRID"

section \<open>Line of sight and combat\<close>

record Los =
  seen :: bool
  distance :: int
  dirOk :: bool

definition lineOfSight :: "Tank \<Rightarrow> Tank \<Rightarrow> Los" where
  "lineOfSight a b =
     (if x_pos a = x_pos b then
        (let dy = sgn (y_pos b - y_pos a);
             dist = \<bar>y_pos b - y_pos a\<bar>;
             facing = ((dy < 0 \<and> dir a = 0) \<or> (dy > 0 \<and> dir a = 2))
         in \<lparr> seen = dist > 0, distance = dist, dirOk = facing \<rparr>)
      else if y_pos a = y_pos b then
        (let dx = sgn (x_pos b - x_pos a);
             dist = \<bar>x_pos b - x_pos a\<bar>;
             facing = ((dx > 0 \<and> dir a = 1) \<or> (dx < 0 \<and> dir a = 3))
         in \<lparr> seen = dist > 0, distance = dist, dirOk = facing \<rparr>)
      else \<lparr> seen = False, distance = 999, dirOk = False \<rparr>)"

definition tankAttack :: "World \<Rightarrow> World" where
  "tankAttack world =
     (let los = lineOfSight (player world) (enemy world) in
      if seen los \<and> dirOk los \<and> distance los \<le> 3
      then world\<lparr> enemy := (enemy world)\<lparr> hp := max 0 (hp (enemy world) - 40) \<rparr>,
                  message := ''ATTACK hit! Enemy -40 HP'' \<rparr>
      else world\<lparr> message := ''ATTACK missed.'' \<rparr>)"


section \<open>Runtime state and program representation\<close>

datatype Expr = ENumber jsval | EVar string

text \<open>Relative directions and turn sides are the strings the source stores in the
  statement nodes (\<open>''FORWARD''\<close>, \<open>''BACKWARD''\<close>, \<open>''LEFT''\<close>, \<open>''RIGHT''\<close>). The last
  constructor is no statement of the language: it stands for the value \<open>undefined\<close> that
  indexing yields when the body of a frame is not an array of statements (see
  \<open>host_body\<close> below); the stepper raises a TypeError when it reads the \<open>kind\<close> of it.\<close>

datatype Stmt =
    SAssign string Expr
  | SMove Expr string
  | STurn string
  | SScan
  | SAttack
  | SIf Expr Stmt "Stmt option"
  | SCall string
  | SNoop
  | SFunction string "Stmt list"
  | SUndefined

record Program =
  stmts :: "Stmt list"
  functions_tbl :: "string \<rightharpoonup> Stmt list"

record Frame =
  fname :: string
  fpc :: nat
  fbody :: "Stmt list"

text \<open>The call stack is an array whose last element is the active frame. The variable store
  and the function table are plain objects used as dictionaries. Their own entries are
  modelled as maps; a name that has no entry is looked up in the prototype of plain
  objects (\<open>inherited\<close>).\<close>

record Runtime =
  pc :: nat
  stack :: "Frame list"
  vars :: "string \<rightharpoonup> jsval"
  enemySeen :: int

definition makeRuntime :: Runtime where
  "makeRuntime = \<lparr> pc = 0, stack = [], vars = Map.empty, enemySeen = 0 \<rparr>"

definition read_var :: "Runtime \<Rightarrow> string \<Rightarrow> jsval option" where
  \<comment> \<open>\<open>rt.vars[name]\<close>: the own entry, else the inherited property, else \<open>undefined\<close>\<close>
  "read_var rt name =
     (case vars rt name of
        Some v \<Rightarrow> Some v
      | None \<Rightarrow> (case inherited name of Some _ \<Rightarrow> Some (Inherited name) | None \<Rightarrow> None))"

fun getVal :: "Expr \<Rightarrow> Runtime \<Rightarrow> jsval" where
  "getVal (ENumber v) rt = v"
| "getVal (EVar name) rt = (case read_var rt name of Some v \<Rightarrow> v | None \<Rightarrow> Fin 0)"

text \<open>The assignment \<open>rt.vars[name] = v\<close> creates or updates the own entry of the store,
  except under the name \<open>__proto__\<close> when the store has no own entry of that name: the
  assignment then reaches the inherited setter, which ignores a number and, given an
  object, makes it the prototype of the store. Given the prototype object itself, that
  changes nothing. Given a built-in function, the store inherits from that function
  afterwards, and what it inherits depends on the properties of built-in functions,
  which differ between hosts: the result \<open>None\<close> marks that case.\<close>

definition assign_var :: "string \<Rightarrow> jsval \<Rightarrow> Runtime \<Rightarrow> Runtime option" where
  "assign_var name v rt =
     (if name = ''__proto__'' \<and> vars rt name = None
      then (if is_object v \<and> v \<noteq> Inherited ''__proto__'' then None else Some rt)
      else Some (rt\<lparr> vars := (vars rt)(name \<mapsto> v) \<rparr>))"

text \<open>The function table is read in the same way. A call statement stores what it finds
  as the body of a new frame, and the stepper then uses the \<open>length\<close> of that body and its
  elements. A body found in the prototype is a built-in function, whose \<open>length\<close> is its
  number of parameters and whose elements are all \<open>undefined\<close>, or (under \<open>__proto__\<close>)
  the prototype object, which has no \<open>length\<close>, so that the test \<open>pc >= list.length\<close> fails
  and the element at the counter 0 of the new frame is read, again \<open>undefined\<close>.\<close>

definition host_body :: "nat option \<Rightarrow> Stmt list" where
  "host_body len = (case len of Some n \<Rightarrow> replicate n SUndefined | None \<Rightarrow> [SUndefined])"

definition lookup_function :: "Program \<Rightarrow> string \<Rightarrow> Stmt list option" where
  \<comment> \<open>\<open>prog.functions[name]\<close>, \<open>None\<close> when it is \<open>undefined\<close>\<close>
  "lookup_function prog name =
     (case functions_tbl prog name of
        Some body \<Rightarrow> Some body
      | None \<Rightarrow> map_option host_body (inherited name))"

section \<open>Game operations\<close>

definition move_vector :: "Tank \<Rightarrow> string \<Rightarrow> error + (int \<times> int)" where
  \<comment> \<open>the \<open>switch\<close> of \<open>tankMove\<close>: the unit vector for a direction word\<close>
  "move_vector p dirWord =
     (if dirWord = ''FORWARD'' then
        (case DIRS (dir p) of None \<Rightarrow> Inl TypeError | Some (dx, dy) \<Rightarrow> Inr (dx, dy))
      else if dirWord = ''BACKWARD'' then
        (case DIRS (dir p) of None \<Rightarrow> Inl TypeError | Some (dx, dy) \<Rightarrow> Inr (- dx, - dy))
      else if dirWord = ''LEFT'' then
        (case DIRS (js_rem (dir p + 3) 4) of None \<Rightarrow> Inl TypeError | Some (dx, dy) \<Rightarrow> Inr (dx, dy))
      else if dirWord = ''RIGHT'' then
        (case DIRS (js_rem (dir p + 1) 4) of None \<Rightarrow> Inl TypeError | Some (dx, dy) \<Rightarrow> Inr (dx, dy))
      else Inr (0, 0))"

definition move_once :: "int \<Rightarrow> int \<Rightarrow> Tank \<Rightarrow> Tank" where
  \<comment> \<open>the body of the loop of \<open>tankMove\<close>\<close>
  "move_once dx dy p =
     (let nx = clamp (x_pos p + dx) 0 (GRID - 1);
          ny = clamp (y_pos p + dy) 0 (GRID - 1)
      in p\<lparr> x_pos := nx, y_pos := ny \<rparr>)"

text \<open>The loop \<open>for (let i = 0; i < amount; i++)\<close>. The counter is a double: it counts
  exactly up to \<open>2^53\<close>, and there \<open>i++\<close> leaves it unchanged, because \<open>2^53 + 1\<close> rounds
  back to \<open>2^53\<close>. So the loop does not end when the amount is infinite or above \<open>2^53\<close>:
  the result \<open>None\<close>.\<close>

definition counter_max :: nat where
  "counter_max = 2 ^ 53"

definition next_counter :: "nat \<Rightarrow> nat" where
  "next_counter i = (if i < counter_max then Suc i else i)"

partial_function (option) move_loop :: "enat \<Rightarrow> int \<Rightarrow> int \<Rightarrow> nat \<Rightarrow> Tank \<Rightarrow> Tank option" where
  "move_loop amount dx dy i p =
     (if enat i < amount then move_loop amount dx dy (next_counter i) (move_once dx dy p) else Some p)"

definition tankMove :: "World \<Rightarrow> string \<Rightarrow> enat \<Rightarrow> (error + World) option" where
  "tankMove world dirWord amount =
     (case move_vector (player world) dirWord of
        Inl e \<Rightarrow> Some (Inl e)
      | Inr (dx, dy) \<Rightarrow>
          (case move_loop amount dx dy 0 (player world) of
             None \<Rightarrow> None
           | Some p \<Rightarrow> Some (Inr (world\<lparr> player := p \<rparr>))))"

definition tankTurn :: "World \<Rightarrow> string \<Rightarrow> World" where
  "tankTurn world side =
     world\<lparr> player := (player world)\<lparr> dir :=
        js_rem (dir (player world) + (if side = ''RIGHT'' then 1 else 3)) 4 \<rparr> \<rparr>"

definition tankScan :: "World \<Rightarrow> Runtime \<Rightarrow> World \<times> Runtime" where
  "tankScan world rt =
     (let los = lineOfSight (player world) (enemy world);
          es = (if seen los then 1 else 0);
          rt' = rt\<lparr> enemySeen := es, vars := (vars rt)(''ENEMY'' \<mapsto> Fin (of_int es)) \<rparr>;
          world' = world\<lparr> message :=
             (if seen los then ''Enemy spotted at '' @ show_int (distance los) @ '' tiles.''
              else ''No enemy in sight.'') \<rparr>
      in (world', rt'))"

section \<open>The stepper\<close>

definition move_amount :: "jsval \<Rightarrow> enat option" where
  \<comment> \<open>\<open>Math.max(0, Math.floor(v))\<close>; \<open>None\<close> is not-a-number, which is also what an object
      converts to\<close>
  "move_amount v =
     (case v of
        Fin q \<Rightarrow> Some (enat (nat \<lfloor>q\<rfloor>))
      | PosInf \<Rightarrow> Some \<infinity>
      | NegInf \<Rightarrow> Some 0
      | NaN \<Rightarrow> None
      | Inherited _ \<Rightarrow> None)"

definition loop_bound :: "enat option \<Rightarrow> enat" where
  \<comment> \<open>the number of rounds of the loop of \<open>tankMove\<close>: with not-a-number as the amount the
      first test \<open>0 < amount\<close> is false, as it is with the amount 0\<close>
  "loop_bound amt = (case amt of Some n \<Rightarrow> n | None \<Rightarrow> 0)"

definition show_amount :: "enat option \<Rightarrow> string" where
  \<comment> \<open>the amount in the message of a move; the message is only written when the loop has
      ended, that is for an amount of at most \<open>2^53\<close>, or not-a-number\<close>
  "show_amount a =
     (case a of Some (enat n) \<Rightarrow> show_nat n | Some \<infinity> \<Rightarrow> ''Infinity'' | None \<Rightarrow> ''NaN'')"

text \<open>The closure \<open>advance\<close> increments the counter of the frame object that was on top
  of the stack when the step began (given here by its index), or the top-level counter
  when there was none.\<close>

definition advance :: "nat option \<Rightarrow> Runtime \<Rightarrow> Runtime" where
  "advance frame rt =
     (case frame of
        None \<Rightarrow> rt\<lparr> pc := pc rt + 1 \<rparr>
      | Some i \<Rightarrow> rt\<lparr> stack := (stack rt)[i := (stack rt ! i)\<lparr> fpc := fpc (stack rt ! i) + 1 \<rparr>] \<rparr>)"

definition exec_stmt :: "nat option \<Rightarrow> Stmt \<Rightarrow> World \<Rightarrow> Program \<Rightarrow> Runtime \<Rightarrow>
    (error + bool \<times> World \<times> Runtime) option" where
  \<comment> \<open>the \<open>switch (stmt.kind)\<close> of \<open>stepProgram\<close>\<close>
  "exec_stmt frame stmt world prog rt =
     (case stmt of
        SAssign name val \<Rightarrow>
          (case assign_var name (getVal val rt) rt of
             None \<Rightarrow> Some (Inl HostDefined)
           | Some rt1 \<Rightarrow>
               Some (Inr (True,
                  world\<lparr> message := ''$'' @ name @ '' = '' @ numToString (getVal (EVar name) rt1) \<rparr>,
                  advance frame rt1)))
      | SMove amount d \<Rightarrow>
          (let amt = move_amount (getVal amount rt) in
           case tankMove world d (loop_bound amt) of
             None \<Rightarrow> None
           | Some (Inl e) \<Rightarrow> Some (Inl e)
           | Some (Inr world1) \<Rightarrow>
               Some (Inr (True, world1\<lparr> message := ''MOVE '' @ show_amount amt @ '' '' @ d \<rparr>,
                          advance frame rt)))
      | STurn d \<Rightarrow>
          Some (Inr (True, (tankTurn world d)\<lparr> message := ''TURN '' @ d \<rparr>, advance frame rt))
      | SScan \<Rightarrow>
          (case tankScan world rt of (world1, rt1) \<Rightarrow> Some (Inr (True, world1, advance frame rt1)))
      | SAttack \<Rightarrow>
          Some (Inr (True, tankAttack world, advance frame rt))
      | SIf c thenStmt elseStmt \<Rightarrow>
          (let cond = getVal c rt;
               chosen = (if cond \<noteq> Fin 0 then Some thenStmt else elseStmt)
           in case chosen of
                Some ch \<Rightarrow>
                  Some (Inr (True, world,
                     rt\<lparr> stack := stack rt @ [\<lparr> fname = ''<if>'', fpc = 0, fbody = [ch] \<rparr>] \<rparr>))
              | None \<Rightarrow>
                  Some (Inr (True,
                     world\<lparr> message := ''IF ('' @ numToString cond @ '') no-op'' \<rparr>,
                     advance frame rt)))
      | SCall name \<Rightarrow>
          (let rt1 = (case lookup_function prog name of
                        Some body \<Rightarrow> rt\<lparr> stack := stack rt @ [\<lparr> fname = name, fpc = 0, fbody = body \<rparr>] \<rparr>
                      | None \<Rightarrow> rt)
           in Some (Inr (True, world\<lparr> message := ''CALL '' @ name \<rparr>, advance frame rt1)))
      | SNoop \<Rightarrow> Some (Inr (True, world, advance frame rt))
      | SFunction name body \<Rightarrow> Some (Inr (True, world, advance frame rt))
      | SUndefined \<Rightarrow> Some (Inl TypeError))"

definition stepProgram :: "World \<Rightarrow> Program \<Rightarrow> Runtime \<Rightarrow> (error + bool \<times> World \<times> Runtime) option" where
  "stepProgram world prog rt =
     (let frame = (if stack rt = [] then None else Some (length (stack rt) - 1));
          list = (case frame of Some i \<Rightarrow> fbody (stack rt ! i) | None \<Rightarrow> stmts prog);
          pc0 = (case frame of Some i \<Rightarrow> fpc (stack rt ! i) | None \<Rightarrow> pc rt)
      in if pc0 \<ge> length list then
           (case frame of
              Some i \<Rightarrow> Some (Inr (True, world, rt\<lparr> stack := butlast (stack rt) \<rparr>))
            | None \<Rightarrow> Some (Inr (False, world, rt)))
         else exec_stmt frame (list ! pc0) world prog rt)"

section \<open>Enemy AI\<close>

definition enemyStep :: "World \<Rightarrow> error + World" where
  "enemyStep world =
     (let e = enemy world; p = player world in
      if hp e \<le> 0 then Inr world
      else
        (let los = lineOfSight e p in
         if seen los \<and> distance los \<le> 3 \<and> dirOk los then
           Inr (world\<lparr> player := p\<lparr> hp := max 0 (hp p - 15) \<rparr>,
                       message := message world @ '' | Enemy fires (-15 HP)'' \<rparr>)
         else
           (let dx = sgn (x_pos p - x_pos e);
                dy = sgn (y_pos p - y_pos e);
                pref = (if \<bar>dx\<bar> > \<bar>dy\<bar> then (if dx > 0 then 1 else 3) else (if dy > 0 then 2 else 0));
                e1 = e\<lparr> dir := pref \<rparr>
            in case DIRS (dir e1) of
                 None \<Rightarrow> Inl TypeError
               | Some d \<Rightarrow>
                   (let e2 = e1\<lparr> x_pos := clamp (x_pos e1 + fst d) 0 (GRID - 1) \<rparr>;
                        e3 = e2\<lparr> y_pos := clamp (y_pos e2 + snd d) 0 (GRID - 1) \<rparr>
                    in Inr (world\<lparr> enemy := e3 \<rparr>)))))"

section \<open>Successive steps\<close>

text \<open>\<open>stepN n\<close> performs \<open>n\<close> successive calls of \<open>stepProgram\<close> on the same program,
  threading the world and the runtime and collecting the returned flags. It stops at the
  first call that raises or does not return.\<close>

fun stepN :: "nat \<Rightarrow> Program \<Rightarrow> World \<Rightarrow> Runtime \<Rightarrow> (error + bool list \<times> World \<times> Runtime) option" where
  "stepN 0 prog world rt = Some (Inr ([], world, rt))"
| "stepN (Suc n) prog world rt =
     (case stepProgram world prog rt of
        None \<Rightarrow> None
      | Some (Inl e) \<Rightarrow> Some (Inl e)
      | Some (Inr (b, world1, rt1)) \<Rightarrow>
          (case stepN n prog world1 rt1 of
             None \<Rightarrow> None
           | Some (Inl e) \<Rightarrow> Some (Inl e)
           | Some (Inr (bs, world2, rt2)) \<Rightarrow> Some (Inr (b # bs, world2, rt2))))"

text \<open>A scene for the combat scenario: the opponent two cells above the actor, the actor
  facing up.\<close>

definition attack_scene :: World where
  "attack_scene = \<lparr> player = \<lparr> x_pos = 5, y_pos = 5, dir = 0, hp = 100 \<rparr>,
                     enemy = \<lparr> x_pos = 5, y_pos = 3, dir = 2, hp = 100 \<rparr>,
                     tick = 0, message = '''' \<rparr>"

text \<open>A scene for the enemy policy: the actor ten columns to the left of the opponent and
  one row above it.\<close>

definition chase_scene :: World where
  "chase_scene = \<lparr> player = \<lparr> x_pos = 0, y_pos = 9, dir = 0, hp = 100 \<rparr>,
                    enemy = \<lparr> x_pos = 10, y_pos = 10, dir = 2, hp = 100 \<rparr>,
                    tick = 0, message = '''' \<rparr>"

text \<open>Programs that call a function \<open>Patrol\<close>. In the first its body is the two strafing
  moves of the default program. In each of the others the body is a single statement: a
  call of another declared function, a call of a name that the function table inherits,
  a conditional that selects its branch, and a move by more than \<open>2^53\<close>.\<close>

definition patrol_prog :: Program where
  "patrol_prog = \<lparr> stmts = [SCall ''Patrol'', SNoop],
       functions_tbl = [''Patrol'' \<mapsto> [SMove (ENumber (Fin 1)) ''LEFT'', SMove (ENumber (Fin 1)) ''RIGHT'']] \<rparr>"

definition nested_prog :: Program where
  "nested_prog = \<lparr> stmts = [SCall ''Patrol'', SNoop],
       functions_tbl = [''Patrol'' \<mapsto> [SCall ''Inner''], ''Inner'' \<mapsto> [SNoop]] \<rparr>"

definition inherited_call_prog :: Program where
  "inherited_call_prog = \<lparr> stmts = [SCall ''Patrol'', SNoop],
       functions_tbl = [''Patrol'' \<mapsto> [SCall ''toString'']] \<rparr>"

definition branch_prog :: Program where
  "branch_prog = \<lparr> stmts = [SCall ''Patrol'', SNoop],
       functions_tbl = [''Patrol'' \<mapsto> [SIf (ENumber (Fin 1)) SNoop None]] \<rparr>"

definition long_move_prog :: Program where
  "long_move_prog = \<lparr> stmts = [SCall ''Patrol'', SNoop],
       functions_tbl = [''Patrol'' \<mapsto> [SMove (ENumber (Fin (10 ^ 16))) ''FORWARD'']] \<rparr>"

text \<open>The world and the runtime after the top-level call of \<open>Patrol\<close> in a fresh runtime and
  the initial world, for a function body \<open>body\<close>.\<close>

definition called_world :: World where
  "called_world = makeInitialWorld\<lparr> message := ''CALL Patrol'' \<rparr>"

definition called :: "Stmt list \<Rightarrow> Runtime" where
  "called body = makeRuntime\<lparr> pc := 1, stack := [\<lparr> fname = ''Patrol'', fpc = 0, fbody = body \<rparr>] \<rparr>"

section \<open>Well-formed worlds and reachability\<close>

definition tank_ok :: "Tank \<Rightarrow> bool" where
  "tank_ok t \<longleftrightarrow> 0 \<le> x_pos t \<and> x_pos t < GRID \<and> 0 \<le> y_pos t \<and> y_pos t < GRID
       \<and> 0 \<le> hp t \<and> hp t \<le> 100 \<and> (dir t = 0 \<or> dir t = 1 \<or> dir t = 2 \<or> dir t = 3)"

definition world_ok :: "World \<Rightarrow> bool" where
  "world_ok w \<longleftrightarrow> tank_ok (player w) \<and> tank_ok (enemy w)"

text \<open>The worlds that some sequence of \<open>stepProgram\<close> and \<open>enemyStep\<close> calls produces from
  the initial world; each call of \<open>stepProgram\<close> may be given any program and any runtime.\<close>

inductive reachable :: "World \<Rightarrow> bool" where
  reach_init: "reachable makeInitialWorld"
| reach_step: "reachable w \<Longrightarrow> stepProgram w prog rt = Some (Inr (b, w', rt')) \<Longrightarrow> reachable w'"
| reach_enemy: "reachable w \<Longrightarrow> enemyStep w = Inr w' \<Longrightarrow> reachable w'"

section \<open>The active statement\<close>

text \<open>The first lines of \<open>stepProgram\<close> choose the active statement list and the active
  program counter: those of the top frame when there is one, the top-level ones otherwise.\<close>

definition active_list :: "Program \<Rightarrow> Runtime \<Rightarrow> Stmt list" where
  "active_list prog rt = (if stack rt = [] then stmts prog else fbody (last (stack rt)))"

definition active_pc :: "Runtime \<Rightarrow> nat" where
  "active_pc rt = (if stack rt = [] then pc rt else fpc (last (stack rt)))"

definition active_stmt :: "Program \<Rightarrow> Runtime \<Rightarrow> Stmt option" where
  "active_stmt prog rt =
     (if active_pc rt < length (active_list prog rt)
      then Some (active_list prog rt ! active_pc rt) else None)"

text \<open>A statement is \<^emph>\<open>flat\<close> in a runtime when executing it there takes one step that
  returns and pushes no frame: a conditional that selects no branch, a call of a name
  that the function table neither holds nor inherits, a move by at most \<open>2^53\<close> (or by
  not-a-number), an assignment that does not make a built-in function the prototype of
  the variable store, and every scan, attack, turn, no-op and function node. A tank faces properly
  when its facing is one of the four table indices.\<close>

fun flat_now :: "Program \<Rightarrow> Runtime \<Rightarrow> Stmt \<Rightarrow> bool" where
  "flat_now prog rt (SIf c t e) = ((if getVal c rt \<noteq> Fin 0 then Some t else e) = None)"
| "flat_now prog rt (SCall name) = (lookup_function prog name = None)"
| "flat_now prog rt (SMove a d) = (loop_bound (move_amount (getVal a rt)) \<le> enat counter_max)"
| "flat_now prog rt (SAssign name v) = (assign_var name (getVal v rt) rt \<noteq> None)"
| "flat_now prog rt SUndefined = False"
| "flat_now prog rt s = True"

definition facing_ok :: "Tank \<Rightarrow> bool" where
  "facing_ok t \<longleftrightarrow> dir t = 0 \<or> dir t = 1 \<or> dir t = 2 \<or> dir t = 3"

section \<open>Strings and regular expressions of the host language\<close>

text \<open>Program text is a list of 8-bit characters. White space is what \<open>\s\<close> and \<open>trim\<close>
  accept among them (tab, line feed, vertical tab, form feed, carriage return, space,
  no-break space); a word character is what \<open>\w\<close> accepts.\<close>

definition is_space :: "char \<Rightarrow> bool" where
  "is_space c \<longleftrightarrow> (let n = (of_char c :: nat) in (9 \<le> n \<and> n \<le> 13) \<or> n = 32 \<or> n = 160)"

definition is_digit :: "char \<Rightarrow> bool" where
  "is_digit c \<longleftrightarrow> (let n = (of_char c :: nat) in 48 \<le> n \<and> n \<le> 57)"

definition is_upper :: "char \<Rightarrow> bool" where
  "is_upper c \<longleftrightarrow> (let n = (of_char c :: nat) in 65 \<le> n \<and> n \<le> 90)"

definition is_lower :: "char \<Rightarrow> bool" where
  "is_lower c \<longleftrightarrow> (let n = (of_char c :: nat) in 97 \<le> n \<and> n \<le> 122)"

definition is_word :: "char \<Rightarrow> bool" where
  "is_word c \<longleftrightarrow> is_upper c \<or> is_lower c \<or> is_digit c \<or> c = CHR ''_''"

definition is_line_end :: "char \<Rightarrow> bool" where
  "is_line_end c \<longleftrightarrow> c = CHR 0x0A \<or> c = CHR 0x0D"

definition upper_char :: "char \<Rightarrow> char" where
  \<comment> \<open>upper case of an ASCII letter; the patterns and keywords of the parser are ASCII\<close>
  "upper_char c = (if is_lower c then ''ABCDEFGHIJKLMNOPQRSTUVWXYZ'' ! (of_char c - 97) else c)"

definition lower_char :: "char \<Rightarrow> char" where
  "lower_char c = (if is_upper c then ''abcdefghijklmnopqrstuvwxyz'' ! (of_char c - 65) else c)"

definition toUpperCase :: "string \<Rightarrow> string" where
  "toUpperCase s = map upper_char s"

definition trim :: "string \<Rightarrow> string" where
  "trim s = rev (dropWhile is_space (rev (dropWhile is_space s)))"

definition endsWith :: "string \<Rightarrow> char \<Rightarrow> bool" where
  "endsWith s c \<longleftrightarrow> s \<noteq> [] \<and> last s = c"

text \<open>\<open>s.split(c)\<close> for a one-character separator: the pieces between the separators, empty
  pieces included.\<close>

fun split_on :: "char \<Rightarrow> string \<Rightarrow> string list" where
  "split_on c [] = [[]]"
| "split_on c (x # xs) =
     (if x = c then [] # split_on c xs
      else (case split_on c xs of p # ps \<Rightarrow> (x # p) # ps | [] \<Rightarrow> [[x]]))"

text \<open>\<open>s.split(/\n+/)\<close>: the pieces between maximal runs of line feeds.\<close>

function split_nl_runs :: "string \<Rightarrow> string list" where
  "split_nl_runs [] = [[]]"
| "split_nl_runs (x # xs) =
     (if x = CHR 0x0A then [] # split_nl_runs (dropWhile (\<lambda>c. c = CHR 0x0A) xs)
      else (case split_nl_runs xs of p # ps \<Rightarrow> (x # p) # ps | [] \<Rightarrow> [[x]]))"
  by pat_completeness auto
termination
  by (relation "measure length") (auto simp: length_dropWhile_le less_Suc_eq_le)

fun join :: "string \<Rightarrow> string list \<Rightarrow> string" where
  "join sep [] = []"
| "join sep [s] = s"
| "join sep (s # t # ts) = s @ sep @ join sep (t # ts)"

subsection \<open>A backtracking matcher\<close>

text \<open>The patterns of the parser use literals, character classes, \<open>.\<close>, \<open>[\s\S]\<close>,
  sequencing, alternation, greedy and lazy repetition, capture groups, \<open>^\<close>, \<open>$\<close> and
  \<open>\b\<close>. The matcher tries the alternatives in the order of the host language and returns
  the first match. A matching state holds the consumed input (reversed), the remaining
  input and the captures; a repetition never accepts an iteration that consumes nothing.\<close>

datatype citem = CChar char | CRange char char | CSpace

datatype rx =
    Lit string
  | Cls "citem list"
  | Dot
  | AnyCh
  | Eps
  | Seq rx rx
  | Alt rx rx
  | Star rx
  | StarLazy rx
  | Grp nat rx
  | Bol
  | Eol
  | WordB

definition Plus :: "rx \<Rightarrow> rx" where
  "Plus r = Seq r (Star r)"

definition PlusLazy :: "rx \<Rightarrow> rx" where
  "PlusLazy r = Seq r (StarLazy r)"

definition Opt :: "rx \<Rightarrow> rx" where
  "Opt r = Alt r Eps"

fun seqs :: "rx list \<Rightarrow> rx" where
  "seqs [] = Eps"
| "seqs [r] = r"
| "seqs (r # rs) = Seq r (seqs rs)"

type_synonym mstate = "string \<times> string \<times> (nat \<rightharpoonup> string)"
type_synonym kont = "mstate \<Rightarrow> mstate option"

definition ch_eq :: "bool \<Rightarrow> char \<Rightarrow> char \<Rightarrow> bool" where
  \<comment> \<open>with the flag \<open>i\<close> characters are compared in canonical (upper) case\<close>
  "ch_eq ic a b = (if ic then upper_char a = upper_char b else a = b)"

fun citem_match :: "bool \<Rightarrow> char \<Rightarrow> citem \<Rightarrow> bool" where
  "citem_match ic c (CChar a) = ch_eq ic c a"
| "citem_match ic c (CRange a b) =
     ((of_char a \<le> (of_char c :: nat) \<and> (of_char c :: nat) \<le> of_char b)
      \<or> (ic \<and> (of_char a \<le> (of_char (upper_char c) :: nat) \<and> (of_char (upper_char c) :: nat) \<le> of_char b))
      \<or> (ic \<and> (of_char a \<le> (of_char (lower_char c) :: nat) \<and> (of_char (lower_char c) :: nat) \<le> of_char b)))"
| "citem_match ic c CSpace = is_space c"

fun lit_match :: "bool \<Rightarrow> string \<Rightarrow> string \<Rightarrow> bool" where
  "lit_match ic [] r = True"
| "lit_match ic (a # as) [] = False"
| "lit_match ic (a # as) (c # cs) = (ch_eq ic c a \<and> lit_match ic as cs)"

definition one_char :: "(char \<Rightarrow> bool) \<Rightarrow> kont \<Rightarrow> kont" where
  "one_char p k st =
     (case st of (b, r, caps) \<Rightarrow>
        (case r of [] \<Rightarrow> None | c # cs \<Rightarrow> if p c then k (c # b, cs, caps) else None))"

primrec star_greedy :: "(kont \<Rightarrow> kont) \<Rightarrow> nat \<Rightarrow> kont \<Rightarrow> kont" where
  "star_greedy step 0 k st = k st"
| "star_greedy step (Suc n) k st =
     (case step (\<lambda>st'. if length (fst (snd st')) < length (fst (snd st))
                        then star_greedy step n k st' else None) st of
        Some m \<Rightarrow> Some m
      | None \<Rightarrow> k st)"

primrec star_lazy :: "(kont \<Rightarrow> kont) \<Rightarrow> nat \<Rightarrow> kont \<Rightarrow> kont" where
  "star_lazy step 0 k st = k st"
| "star_lazy step (Suc n) k st =
     (case k st of
        Some m \<Rightarrow> Some m
      | None \<Rightarrow> step (\<lambda>st'. if length (fst (snd st')) < length (fst (snd st))
                              then star_lazy step n k st' else None) st)"

primrec rx_match :: "bool \<Rightarrow> rx \<Rightarrow> kont \<Rightarrow> kont" where
  "rx_match ic (Lit s) k = (\<lambda>st. case st of (b, r, caps) \<Rightarrow>
       if lit_match ic s r then k (rev (take (length s) r) @ b, drop (length s) r, caps) else None)"
| "rx_match ic (Cls items) k = one_char (\<lambda>c. \<exists>i \<in> set items. citem_match ic c i) k"
| "rx_match ic Dot k = one_char (\<lambda>c. \<not> is_line_end c) k"
| "rx_match ic AnyCh k = one_char (\<lambda>c. True) k"
| "rx_match ic Eps k = k"
| "rx_match ic (Seq r1 r2) k = rx_match ic r1 (rx_match ic r2 k)"
| "rx_match ic (Alt r1 r2) k = (\<lambda>st. case rx_match ic r1 k st of Some m \<Rightarrow> Some m | None \<Rightarrow> rx_match ic r2 k st)"
| "rx_match ic (Star r) k = (\<lambda>st. star_greedy (rx_match ic r) (length (fst (snd st))) k st)"
| "rx_match ic (StarLazy r) k = (\<lambda>st. star_lazy (rx_match ic r) (length (fst (snd st))) k st)"
| "rx_match ic (Grp n r) k = (\<lambda>st. rx_match ic r
       (\<lambda>st'. case st' of (b', r', caps') \<Rightarrow>
           k (b', r', caps'(n \<mapsto> take (length (fst (snd st)) - length r') (fst (snd st))))) st)"
| "rx_match ic Bol k = (\<lambda>st. if fst st = [] then k st else None)"
| "rx_match ic Eol k = (\<lambda>st. if fst (snd st) = [] then k st else None)"
| "rx_match ic WordB k = (\<lambda>st. case st of (b, r, caps) \<Rightarrow>
       if (case b of [] \<Rightarrow> False | c # _ \<Rightarrow> is_word c) \<noteq> (case r of [] \<Rightarrow> False | c # _ \<Rightarrow> is_word c)
       then k st else None)"

text \<open>\<open>exec\<close> without the sticky or global flag tries every start position from the left.
  The result is the text before the match together with the final matching state.\<close>

fun rx_search :: "bool \<Rightarrow> rx \<Rightarrow> string \<Rightarrow> string \<Rightarrow> (string \<times> mstate) option" where
  "rx_search ic r b [] =
     (case rx_match ic r Some (b, [], Map.empty) of Some m \<Rightarrow> Some (rev b, m) | None \<Rightarrow> None)"
| "rx_search ic r b (c # cs) =
     (case rx_match ic r Some (b, c # cs, Map.empty) of
        Some m \<Rightarrow> Some (rev b, m)
      | None \<Rightarrow> rx_search ic r (c # b) cs)"

definition rx_exec :: "bool \<Rightarrow> rx \<Rightarrow> string \<Rightarrow> (nat \<rightharpoonup> string) option" where
  \<comment> \<open>\<open>s.match(r)\<close>: the captures of the first match, if any\<close>
  "rx_exec ic r s = (case rx_search ic r [] s of Some (pre, (b, rest, caps)) \<Rightarrow> Some caps | None \<Rightarrow> None)"

definition rx_test :: "bool \<Rightarrow> rx \<Rightarrow> string \<Rightarrow> bool" where
  "rx_test ic r s \<longleftrightarrow> rx_search ic r [] s \<noteq> None"

definition rx_remove_first :: "bool \<Rightarrow> rx \<Rightarrow> string \<Rightarrow> string" where
  \<comment> \<open>\<open>s.replace(r, "")\<close> for a pattern without the global flag\<close>
  "rx_remove_first ic r s =
     (case rx_search ic r [] s of Some (pre, (b, rest, caps)) \<Rightarrow> pre @ rest | None \<Rightarrow> s)"

section \<open>Numeric conversion of text\<close>

text \<open>\<open>Number(s)\<close> of the host language: surrounding white space is dropped; the empty
  string is 0; an unsigned hexadecimal, octal or binary integer with its prefix, or a decimal
  literal with an optional sign, fraction and exponent, or \<open>Infinity\<close> with an optional sign,
  has its value, rounded to the nearest double; every other string is not a number
  (\<open>None\<close>).\<close>

definition digit_val :: "char \<Rightarrow> nat" where
  "digit_val c =
     (if is_digit c then of_char c - 48
      else if is_lower c then of_char c - 87
      else of_char c - 55)"

definition digits_val :: "nat \<Rightarrow> string \<Rightarrow> nat" where
  "digits_val base s = foldl (\<lambda>a c. base * a + digit_val c) 0 s"

definition is_hex :: "char \<Rightarrow> bool" where
  "is_hex c \<longleftrightarrow> is_digit c \<or> (let n = (of_char c :: nat) in (65 \<le> n \<and> n \<le> 70) \<or> (97 \<le> n \<and> n \<le> 102))"

definition is_octal :: "char \<Rightarrow> bool" where
  "is_octal c \<longleftrightarrow> (let n = (of_char c :: nat) in 48 \<le> n \<and> n \<le> 55)"

definition is_binary :: "char \<Rightarrow> bool" where
  "is_binary c \<longleftrightarrow> c = CHR ''0'' \<or> c = CHR ''1''"

definition all_digits :: "string \<Rightarrow> bool" where
  "all_digits s \<longleftrightarrow> s \<noteq> [] \<and> list_all is_digit s"

text \<open>Rounding to a double. A double is \<open>m * 2^u\<close> with a mantissa \<open>m\<close> below \<open>2^53\<close> and
  \<open>u\<close> from \<open>-1074\<close> to \<open>971\<close>. The value \<open>n / d\<close> lies in the binade \<open>2^e \<le> n / d < 2^(e+1)\<close>,
  found from the bit lengths of \<open>n\<close> and \<open>d\<close>; the doubles around it are spaced \<open>2^u\<close> apart
  with \<open>u = e - 52\<close>, or \<open>-1074\<close> in the subnormal range; the quotient by \<open>2^u\<close> is rounded
  to the nearest integer, a tie going to the even one, and a result that reaches \<open>2^1024\<close>
  is infinite. (The standard allows a host to round a literal of more than 20 significant
  digits less exactly; the hosts in use round every literal as described here.)\<close>

fun bits :: "nat \<Rightarrow> nat" where
  "bits n = (if n = 0 then 0 else Suc (bits (n div 2)))"

declare bits.simps [simp del]

definition pow2 :: "int \<Rightarrow> rat" where
  "pow2 e = (if 0 \<le> e then 2 ^ nat e else 1 / 2 ^ nat (- e))"

definition scaled :: "int \<Rightarrow> nat \<Rightarrow> nat \<Rightarrow> nat \<times> nat" where
  \<comment> \<open>numerator and denominator of \<open>(n / d) / 2^u\<close>\<close>
  "scaled u n d = (if 0 \<le> u then (n, d * 2 ^ nat u) else (n * 2 ^ nat (- u), d))"

definition binade :: "nat \<Rightarrow> nat \<Rightarrow> int" where
  \<comment> \<open>the \<open>e\<close> with \<open>2^e \<le> n / d < 2^(e+1)\<close>, for positive \<open>n\<close> and \<open>d\<close>\<close>
  "binade n d =
     (let c = int (bits n) - int (bits d)
      in case scaled c n d of (a, b) \<Rightarrow> if b \<le> a then c else c - 1)"

definition round_half_even :: "nat \<Rightarrow> nat \<Rightarrow> nat" where
  \<comment> \<open>the integer nearest to \<open>a / b\<close>, the even one of two that are equally near\<close>
  "round_half_even a b =
     (let f = a div b; r = a mod b
      in if 2 * r < b then f
         else if b < 2 * r then f + 1
         else if even f then f else f + 1)"

definition round_ratio :: "nat \<Rightarrow> nat \<Rightarrow> jsval" where
  \<comment> \<open>the double nearest to \<open>n / d\<close>, for a positive \<open>d\<close>\<close>
  "round_ratio n d =
     (if n = 0 then Fin 0
      else
        (let e = binade n d in
         if 1024 \<le> e then PosInf
         else
           (let u = max (e - 52) (- 1074);
                m = (case scaled u n d of (a, b) \<Rightarrow> round_half_even a b)
            in if 2 ^ 53 \<le> m \<and> u = 971 then PosInf else Fin (of_nat m * pow2 u))))"

definition decimal_value :: "nat \<Rightarrow> int \<Rightarrow> jsval" where
  \<comment> \<open>the double nearest to \<open>m * 10^e\<close>\<close>
  "decimal_value m e =
     (if 0 \<le> e then round_ratio (m * 10 ^ nat e) 1 else round_ratio m (10 ^ nat (- e)))"

definition parse_exponent :: "string \<Rightarrow> int option" where
  "parse_exponent s =
     (case s of
        [] \<Rightarrow> None
      | c # r \<Rightarrow>
          if c = CHR ''+'' then (if all_digits r then Some (int (digits_val 10 r)) else None)
          else if c = CHR ''-'' then (if all_digits r then Some (- int (digits_val 10 r)) else None)
          else (if all_digits s then Some (int (digits_val 10 s)) else None))"

definition parse_unsigned_decimal :: "string \<Rightarrow> jsval option" where
  \<comment> \<open>integer digits \<open>ip\<close>, fraction digits \<open>fp\<close> and exponent \<open>ex\<close> denote the digits of
      \<open>ip\<close> followed by those of \<open>fp\<close>, times ten to the power \<open>ex\<close> less the length of \<open>fp\<close>\<close>
  "parse_unsigned_decimal s =
     (if s = ''Infinity'' then Some PosInf
      else
        (let ip = takeWhile is_digit s;
             r1 = dropWhile is_digit s;
             dotted = (r1 \<noteq> [] \<and> hd r1 = CHR ''.'');
             fp = (if dotted then takeWhile is_digit (tl r1) else []);
             r2 = (if dotted then dropWhile is_digit (tl r1) else r1)
         in if ip = [] \<and> fp = [] then None
            else
              (case (case r2 of
                       [] \<Rightarrow> Some 0
                     | c # r \<Rightarrow> if c = CHR ''e'' \<or> c = CHR ''E'' then parse_exponent r else None) of
                 None \<Rightarrow> None
               | Some ex \<Rightarrow>
                   Some (decimal_value (digits_val 10 (ip @ fp)) (ex - int (length fp))))))"

definition negate :: "jsval \<Rightarrow> jsval" where
  "negate v = (case v of Fin q \<Rightarrow> Fin (- q) | PosInf \<Rightarrow> NegInf | NegInf \<Rightarrow> PosInf | _ \<Rightarrow> NaN)"

definition prefixed :: "char \<Rightarrow> char \<Rightarrow> string \<Rightarrow> bool" where
  \<comment> \<open>the text starts with \<open>0\<close> followed by one of the two given letters\<close>
  "prefixed a b s \<longleftrightarrow> (case s of z # p # _ \<Rightarrow> z = CHR ''0'' \<and> (p = a \<or> p = b) | _ \<Rightarrow> False)"

definition Number_js :: "string \<Rightarrow> jsval option" where
  "Number_js s =
     (let t = trim s in
      if t = [] then Some (Fin 0)
      else if prefixed CHR ''x'' CHR ''X'' t then
        (if drop 2 t \<noteq> [] \<and> list_all is_hex (drop 2 t) then Some (round_ratio (digits_val 16 (drop 2 t)) 1) else None)
      else if prefixed CHR ''o'' CHR ''O'' t then
        (if drop 2 t \<noteq> [] \<and> list_all is_octal (drop 2 t) then Some (round_ratio (digits_val 8 (drop 2 t)) 1) else None)
      else if prefixed CHR ''b'' CHR ''B'' t then
        (if drop 2 t \<noteq> [] \<and> list_all is_binary (drop 2 t) then Some (round_ratio (digits_val 2 (drop 2 t)) 1) else None)
      else if hd t = CHR ''+'' then parse_unsigned_decimal (tl t)
      else if hd t = CHR ''-'' then map_option negate (parse_unsigned_decimal (tl t))
      else parse_unsigned_decimal t)"

section \<open>Lexer and parser\<close>

definition sp :: rx where
  "sp = Cls [CSpace]"

definition ident :: rx where
  \<comment> \<open>\<open>[A-Za-z_][A-Za-z0-9_]*\<close>\<close>
  "ident = Seq (Cls [CRange CHR ''A'' CHR ''Z'', CRange CHR ''a'' CHR ''z'', CChar CHR ''_''])
               (Star (Cls [CRange CHR ''A'' CHR ''Z'', CRange CHR ''a'' CHR ''z'',
                           CRange CHR ''0'' CHR ''9'', CChar CHR ''_'']))"

definition rx_comment :: rx where
  \<comment> \<open>\<open>/\/\/.*$/\<close>\<close>
  "rx_comment = seqs [Lit ''//'', Star Dot, Eol]"

definition rx_function_head :: rx where
  \<comment> \<open>\<open>/^FUNCTION\s+/i\<close>\<close>
  "rx_function_head = seqs [Bol, Lit ''FUNCTION'', Plus sp]"

definition rx_end :: rx where
  \<comment> \<open>\<open>/^END\b/i\<close>\<close>
  "rx_end = seqs [Bol, Lit ''END'', WordB]"

definition rx_var :: rx where
  \<comment> \<open>\<open>/^\$[A-Za-z_][A-Za-z0-9_]*$/\<close>\<close>
  "rx_var = seqs [Bol, Lit ''$'', ident, Eol]"

definition rx_function :: rx where
  \<comment> \<open>\<open>/^FUNCTION\s+([A-Za-z_][A-Za-z0-9_]*)\s*:\s*\n([\s\S]*?)\nEND$/i\<close>\<close>
  "rx_function = seqs [Bol, Lit ''FUNCTION'', Plus sp, Grp 1 ident, Star sp, Lit '':'', Star sp,
       Lit [CHR 0x0A], Grp 2 (StarLazy AnyCh), Lit [CHR 0x0A], Lit ''END'', Eol]"

definition rx_if_head :: rx where
  \<comment> \<open>\<open>/^IF\s+/i\<close>\<close>
  "rx_if_head = seqs [Bol, Lit ''IF'', Plus sp]"

definition rx_if :: rx where
  \<comment> \<open>\<open>/^IF\s+(.+?)\s+THEN\s+(.+?)(?:\s+ELSE\s+(.+))?;?$/i\<close>\<close>
  "rx_if = seqs [Bol, Lit ''IF'', Plus sp, Grp 1 (PlusLazy Dot), Plus sp, Lit ''THEN'', Plus sp,
       Grp 2 (PlusLazy Dot), Opt (seqs [Plus sp, Lit ''ELSE'', Plus sp, Grp 3 (Plus Dot)]),
       Opt (Lit '';''), Eol]"

definition rx_assign_head :: rx where
  \<comment> \<open>\<open>/^[A-Za-z_][A-Za-z0-9_]*\s*=/\<close>\<close>
  "rx_assign_head = seqs [Bol, ident, Star sp, Lit ''='']"

definition rx_assign :: rx where
  \<comment> \<open>\<open>/^([A-Za-z_][A-Za-z0-9_]*)\s*=\s*(.+);?$/\<close>\<close>
  "rx_assign = seqs [Bol, Grp 1 ident, Star sp, Lit ''='', Star sp, Grp 2 (Plus Dot),
       Opt (Lit '';''), Eol]"

definition rx_move_head :: rx where
  \<comment> \<open>\<open>/^MOVE\s+/i\<close>\<close>
  "rx_move_head = seqs [Bol, Lit ''MOVE'', Plus sp]"

definition rx_move :: rx where
  \<comment> \<open>\<open>/^MOVE\s+(.+)\s+(FORWARD|BACKWARD|LEFT|RIGHT);?$/i\<close>\<close>
  "rx_move = seqs [Bol, Lit ''MOVE'', Plus sp, Grp 1 (Plus Dot), Plus sp,
       Grp 2 (Alt (Lit ''FORWARD'') (Alt (Lit ''BACKWARD'') (Alt (Lit ''LEFT'') (Lit ''RIGHT'')))),
       Opt (Lit '';''), Eol]"

definition rx_turn_head :: rx where
  \<comment> \<open>\<open>/^TURN\s+/i\<close>\<close>
  "rx_turn_head = seqs [Bol, Lit ''TURN'', Plus sp]"

definition rx_turn :: rx where
  \<comment> \<open>\<open>/^TURN\s+(LEFT|RIGHT);?$/i\<close>\<close>
  "rx_turn = seqs [Bol, Lit ''TURN'', Plus sp, Grp 1 (Alt (Lit ''LEFT'') (Lit ''RIGHT'')),
       Opt (Lit '';''), Eol]"

definition rx_scan :: rx where
  \<comment> \<open>\<open>/^SCAN_FOR_ENEMY;?$/i\<close>\<close>
  "rx_scan = seqs [Bol, Lit ''SCAN_FOR_ENEMY'', Opt (Lit '';''), Eol]"

definition rx_attack :: rx where
  \<comment> \<open>\<open>/^ATTACK;?$/i\<close>\<close>
  "rx_attack = seqs [Bol, Lit ''ATTACK'', Opt (Lit '';''), Eol]"

definition rx_call_head :: rx where
  \<comment> \<open>\<open>/^CALL\s+/i\<close>\<close>
  "rx_call_head = seqs [Bol, Lit ''CALL'', Plus sp]"

definition rx_call :: rx where
  \<comment> \<open>\<open>/^CALL\s+([A-Za-z_][A-Za-z0-9_]*);?$/i\<close>\<close>
  "rx_call = seqs [Bol, Lit ''CALL'', Plus sp, Grp 1 ident, Opt (Lit '';''), Eol]"

definition cap :: "(nat \<rightharpoonup> string) \<Rightarrow> nat \<Rightarrow> string" where
  \<comment> \<open>the text of a group that is not inside an optional part: it takes part in every match\<close>
  "cap m n = (case m n of Some s \<Rightarrow> s | None \<Rightarrow> [])"

definition stripComments :: "string \<Rightarrow> string" where
  "stripComments s = join [CHR 0x0A] (map (rx_remove_first False rx_comment) (split_on CHR 0x0A s))"

definition is_function_head :: "string \<Rightarrow> bool" where
  "is_function_head line \<longleftrightarrow> rx_test True rx_function_head line"

definition is_end :: "string \<Rightarrow> bool" where
  "is_end line \<longleftrightarrow> rx_test True rx_end line"

definition statement_tokens :: "string \<Rightarrow> string list" where
  \<comment> \<open>a regular line, split on semicolons\<close>
  "statement_tokens line =
     map (\<lambda>p. p @ '';'') (filter (\<lambda>p. p \<noteq> []) (map trim (split_on CHR '';'' line)))"

text \<open>The loop of \<open>tokenize\<close> over the index \<open>i\<close> of the current line, as a recursion over
  the lines that remain.\<close>

function tokenize_lines :: "string list \<Rightarrow> string list" where
  "tokenize_lines [] = []"
| "tokenize_lines (line # rest) =
     (if is_function_head line then
        (let body = takeWhile (\<lambda>l. \<not> is_end l) rest;
             after = dropWhile (\<lambda>l. \<not> is_end l) rest
         in join [CHR 0x0A] (line # body @ [''END'']) # tokenize_lines (drop 1 after))
      else statement_tokens line @ tokenize_lines rest)"
  by pat_completeness auto
termination
  by (relation "measure length")
     (auto simp: less_Suc_eq_le intro: le_trans [OF diff_le_self length_dropWhile_le])

definition source_lines :: "string \<Rightarrow> string list" where
  "source_lines code = filter (\<lambda>l. l \<noteq> []) (map trim (split_nl_runs (stripComments code)))"

definition tokenize :: "string \<Rightarrow> string list" where
  "tokenize code = tokenize_lines (source_lines code)"

definition parseExpr :: "string \<Rightarrow> Expr" where
  "parseExpr tok =
     (let v = trim tok in
      if rx_test False rx_var v then EVar (drop 1 v)
      else (case Number_js v of Some n \<Rightarrow> ENumber n | None \<Rightarrow> ENumber (Fin 0)))"

definition with_semicolon :: "string \<Rightarrow> string" where
  \<comment> \<open>\<open>s + (s.endsWith(";") ? "" : ";")\<close>\<close>
  "with_semicolon s = s @ (if endsWith s CHR '';'' then [] else '';'')"

definition parseSimple :: "string \<Rightarrow> Stmt" where
  \<comment> \<open>the rules of \<open>parseStmt\<close> after the conditional, tried in order\<close>
  "parseSimple t =
     (case (if rx_test False rx_assign_head t
            then map_option (\<lambda>m. SAssign (cap m 1) (parseExpr (cap m 2))) (rx_exec False rx_assign t)
            else None) of
        Some s \<Rightarrow> s
      | None \<Rightarrow>
     (case (if rx_test True rx_move_head t
            then map_option (\<lambda>m. SMove (parseExpr (cap m 1)) (toUpperCase (cap m 2))) (rx_exec True rx_move t)
            else None) of
        Some s \<Rightarrow> s
      | None \<Rightarrow>
     (case (if rx_test True rx_turn_head t
            then map_option (\<lambda>m. STurn (toUpperCase (cap m 1))) (rx_exec True rx_turn t)
            else None) of
        Some s \<Rightarrow> s
      | None \<Rightarrow>
     (if rx_test True rx_scan t then SScan
      else if rx_test True rx_attack t then SAttack
      else
     (case (if rx_test True rx_call_head t
            then map_option (\<lambda>m. SCall (cap m 1)) (rx_exec True rx_call t)
            else None) of
        Some s \<Rightarrow> s
      | None \<Rightarrow> SNoop)))))"

text \<open>\<open>parseStmt\<close> calls itself on the branches of a conditional and on the tokens of a
  function body. The recursion is bounded by a fuel argument: \<open>OutOfFuel\<close> means that the
  fuel did not suffice, \<open>Ran r\<close> that the parser returned \<open>r\<close> (\<open>None\<close> being the result
  \<open>null\<close> for an empty token). A rule that does not return falls through to the next one.
  The third outcome is produced by \<open>parseProgram\<close> only (see there).\<close>

datatype 'a fueled = OutOfFuel | Ran 'a | HostTable

fun all_ran :: "'a fueled list \<Rightarrow> 'a list fueled" where
  "all_ran [] = Ran []"
| "all_ran (OutOfFuel # rs) = OutOfFuel"
| "all_ran (HostTable # rs) = HostTable"
| "all_ran (Ran r # rs) =
     (case all_ran rs of OutOfFuel \<Rightarrow> OutOfFuel | HostTable \<Rightarrow> HostTable | Ran xs \<Rightarrow> Ran (r # xs))"

fun parseStmt_fuel :: "nat \<Rightarrow> string \<Rightarrow> Stmt option fueled" where
  "parseStmt_fuel 0 token = OutOfFuel"
| "parseStmt_fuel (Suc n) token =
     (let t = trim token in
      if t = [] then Ran None
      else
        (case (if is_function_head t
               then (case rx_exec True rx_function t of
                       Some m \<Rightarrow>
                         (case all_ran (map (parseStmt_fuel n) (tokenize (cap m 2))) of
                            OutOfFuel \<Rightarrow> Some OutOfFuel
                          | HostTable \<Rightarrow> Some HostTable
                          | Ran parsed \<Rightarrow>
                              Some (Ran (Some (SFunction (cap m 1) (List.map_filter id parsed)))))
                     | None \<Rightarrow> None)
               else None) of
           Some r \<Rightarrow> r
         | None \<Rightarrow>
        (case (if rx_test True rx_if_head t
               then (case rx_exec True rx_if t of
                       Some m \<Rightarrow>
                         (case parseStmt_fuel n (with_semicolon (trim (cap m 2))) of
                            OutOfFuel \<Rightarrow> Some OutOfFuel
                          | HostTable \<Rightarrow> Some HostTable
                          | Ran thenStmt \<Rightarrow>
                              (case (case m 3 of
                                       None \<Rightarrow> Ran None
                                     | Some e \<Rightarrow> if trim e = [] then Ran None
                                                 else parseStmt_fuel n (with_semicolon (trim e))) of
                                 OutOfFuel \<Rightarrow> Some OutOfFuel
                               | HostTable \<Rightarrow> Some HostTable
                               | Ran elseStmt \<Rightarrow>
                                   (case thenStmt of
                                      Some th \<Rightarrow> Some (Ran (Some (SIf (parseExpr (cap m 1)) th elseStmt)))
                                    | None \<Rightarrow> None)))
                     | None \<Rightarrow> None)
               else None) of
           Some r \<Rightarrow> r
         | None \<Rightarrow> Ran (Some (parseSimple t)))))"

definition parseStmt :: "string \<Rightarrow> Stmt option fueled" where
  "parseStmt token = parseStmt_fuel (Suc (length token)) token"

fun add_stmt :: "Program \<Rightarrow> Stmt option \<Rightarrow> Program" where
  \<comment> \<open>the body of the loop of \<open>parseProgram\<close>\<close>
  "add_stmt prog None = prog"
| "add_stmt prog (Some (SFunction name body)) = prog\<lparr> functions_tbl := (functions_tbl prog)(name \<mapsto> body) \<rparr>"
| "add_stmt prog (Some s) = prog\<lparr> stmts := stmts prog @ [s] \<rparr>"

text \<open>\<open>parseProgram\<close> enters each function declaration in the table by the assignment
  \<open>functions[s.name] = s.body\<close>. Under the name \<open>__proto__\<close> that assignment reaches the
  inherited setter and makes the body, an array, the prototype of the table. What the
  table inherits from an array differs between hosts, so such a table is not described
  here: the outcome is \<open>HostTable\<close>.\<close>

definition replaces_prototype :: "Stmt option \<Rightarrow> bool" where
  "replaces_prototype s = (case s of Some (SFunction name body) \<Rightarrow> name = ''__proto__'' | _ \<Rightarrow> False)"

definition parseProgram :: "string \<Rightarrow> Program fueled" where
  "parseProgram code =
     (case all_ran (map parseStmt (tokenize code)) of
        OutOfFuel \<Rightarrow> OutOfFuel
      | HostTable \<Rightarrow> HostTable
      | Ran parsed \<Rightarrow>
          if list_ex replaces_prototype parsed then HostTable
          else Ran (foldl add_stmt \<lparr> stmts = [], functions_tbl = Map.empty \<rparr> parsed))"

text \<open>The source text of the three-statement scenario, and the program its statements are
  meant to denote.\<close>

definition scenario_src :: string where
  "scenario_src = ''MOVEMENT = 2; SCAN_FOR_ENEMY; IF $ENEMY THEN ATTACK ELSE MOVE $MOVEMENT FORWARD;''"

definition scenario_parsed :: Program where
  "scenario_parsed = \<lparr> stmts = [SAssign ''MOVEMENT'' (ENumber (Fin 0)), SScan,
       SIf (EVar ''ENEMY'') SAttack (Some (SMove (EVar ''MOVEMENT'') ''FORWARD''))],
     functions_tbl = Map.empty \<rparr>"

section \<open>Identifiers, as the specification words them\<close>

text \<open>An identifier is a letter or underscore followed by letters, digits and underscores.
  This definition follows the wording of the specification; the parser itself recognises
  variable references with the pattern \<open>rx_var\<close>, and the two are compared below.\<close>

definition is_ident_start :: "char \<Rightarrow> bool" where
  "is_ident_start c \<longleftrightarrow> is_upper c \<or> is_lower c \<or> c = CHR ''_''"

definition is_ident_char :: "char \<Rightarrow> bool" where
  "is_ident_char c \<longleftrightarrow> is_ident_start c \<or> is_digit c"

definition is_identifier :: "string \<Rightarrow> bool" where
  "is_identifier s \<longleftrightarrow> (case s of [] \<Rightarrow> False | c # cs \<Rightarrow> is_ident_start c \<and> list_all is_ident_char cs)"

definition is_variable_token :: "string \<Rightarrow> bool" where
  \<comment> \<open>a \<open>$\<close> followed by an identifier\<close>
  "is_variable_token v \<longleftrightarrow> (case v of [] \<Rightarrow> False | c # cs \<Rightarrow> c = CHR ''$'' \<and> is_identifier cs)"

section \<open>Function blocks in a source text\<close>





section \<open>Verified properties\<close>

subsection \<open>Line of sight\<close>

text \<open>Claim C4. For all tanks \<open>a\<close> and \<open>b\<close>, \<open>lineOfSight a b\<close> reports \<open>seen\<close> exactly when
  the two share exactly one grid axis (the columns are equal or the rows are equal, but not
  both); the distance is the Manhattan offset when they share an axis and the sentinel 999
  otherwise; \<open>dirOk\<close> holds exactly when the facing of \<open>a\<close> points along the shared axis
  toward \<open>b\<close>. So tanks aligned on neither axis give \<open>seen = False\<close>, \<open>dirOk = False\<close>,
  distance 999, and tanks on the same cell give \<open>seen = False\<close>.\<close>

theorem lineOfSight_spec:
  "seen (lineOfSight a b) = ((x_pos a = x_pos b) \<noteq> (y_pos a = y_pos b))
   \<and> distance (lineOfSight a b) =
       (if x_pos a = x_pos b \<or> y_pos a = y_pos b
        then \<bar>x_pos b - x_pos a\<bar> + \<bar>y_pos b - y_pos a\<bar> else 999)
   \<and> dirOk (lineOfSight a b) =
       (if x_pos a = x_pos b
        then (y_pos b < y_pos a \<and> dir a = 0) \<or> (y_pos b > y_pos a \<and> dir a = 2)
        else y_pos a = y_pos b \<and>
             ((x_pos b > x_pos a \<and> dir a = 1) \<or> (x_pos b < x_pos a \<and> dir a = 3)))"
  by (auto simp: lineOfSight_def Let_def sgn_if)

theorem lineOfSight_spec_witness:
  "lineOfSight \<lparr> x_pos = 5, y_pos = 5, dir = 0, hp = 100 \<rparr> \<lparr> x_pos = 5, y_pos = 3, dir = 2, hp = 100 \<rparr>
     = \<lparr> seen = True, distance = 2, dirOk = True \<rparr>
   \<and> lineOfSight \<lparr> x_pos = 2, y_pos = 17, dir = 0, hp = 100 \<rparr> \<lparr> x_pos = 17, y_pos = 2, dir = 2, hp = 100 \<rparr>
     = \<lparr> seen = False, distance = 999, dirOk = False \<rparr>
   \<and> lineOfSight \<lparr> x_pos = 4, y_pos = 4, dir = 1, hp = 100 \<rparr> \<lparr> x_pos = 4, y_pos = 4, dir = 2, hp = 100 \<rparr>
     = \<lparr> seen = False, distance = 0, dirOk = False \<rparr>"
  using lineOfSight_spec [of "\<lparr> x_pos = 5, y_pos = 5, dir = 0, hp = 100 \<rparr>" "\<lparr> x_pos = 5, y_pos = 3, dir = 2, hp = 100 \<rparr>"]
        lineOfSight_spec [of "\<lparr> x_pos = 2, y_pos = 17, dir = 0, hp = 100 \<rparr>" "\<lparr> x_pos = 17, y_pos = 2, dir = 2, hp = 100 \<rparr>"]
        lineOfSight_spec [of "\<lparr> x_pos = 4, y_pos = 4, dir = 1, hp = 100 \<rparr>" "\<lparr> x_pos = 4, y_pos = 4, dir = 2, hp = 100 \<rparr>"]
  by (simp add: Los.equality)

subsection \<open>Attack\<close>

lemma lineOfSight_fields:
  "x_pos a' = x_pos a \<Longrightarrow> y_pos a' = y_pos a \<Longrightarrow> dir a' = dir a \<Longrightarrow>
   x_pos b' = x_pos b \<Longrightarrow> y_pos b' = y_pos b \<Longrightarrow> lineOfSight a' b' = lineOfSight a b"
  by (simp add: lineOfSight_def)

lemma tankAttack_player: "player (tankAttack w) = player w"
  by (simp add: tankAttack_def Let_def)

lemma tankAttack_enemy_pos:
  "x_pos (enemy (tankAttack w)) = x_pos (enemy w)"
  "y_pos (enemy (tankAttack w)) = y_pos (enemy w)"
  "dir (enemy (tankAttack w)) = dir (enemy w)"
  by (simp_all add: tankAttack_def Let_def)

lemma tankAttack_los:
  "lineOfSight (player (tankAttack w)) (enemy (tankAttack w)) = lineOfSight (player w) (enemy w)"
  by (rule lineOfSight_fields) (simp_all add: tankAttack_player tankAttack_enemy_pos)

lemma tankAttack_hit:
  "seen (lineOfSight (player w) (enemy w)) \<Longrightarrow> dirOk (lineOfSight (player w) (enemy w)) \<Longrightarrow>
   distance (lineOfSight (player w) (enemy w)) \<le> 3 \<Longrightarrow>
   tankAttack w = w\<lparr> enemy := (enemy w)\<lparr> hp := max 0 (hp (enemy w) - 40) \<rparr>,
                     message := ''ATTACK hit! Enemy -40 HP'' \<rparr>"
  by (simp add: tankAttack_def Let_def)

lemma tankAttack_miss:
  "\<not> (seen (lineOfSight (player w) (enemy w)) \<and> dirOk (lineOfSight (player w) (enemy w)) \<and>
      distance (lineOfSight (player w) (enemy w)) \<le> 3) \<Longrightarrow>
   tankAttack w = w\<lparr> message := ''ATTACK missed.'' \<rparr>"
  by (auto simp: tankAttack_def Let_def)

text \<open>Claim C5. \<open>tankAttack\<close> lowers the opponent's health by 40, never below 0, exactly when
  the line of sight from actor to opponent is seen, correctly faced and at distance at most
  3, and leaves the health unchanged otherwise. When the opponent is seen, correctly faced,
  at distance 2 and at health 100, three successive attacks give health 60, 20 and 0, each
  with the message \<open>ATTACK hit! Enemy -40 HP\<close>.\<close>

theorem tankAttack_spec:
  "(hp (enemy (tankAttack w)) =
     (if seen (lineOfSight (player w) (enemy w)) \<and> dirOk (lineOfSight (player w) (enemy w))
         \<and> distance (lineOfSight (player w) (enemy w)) \<le> 3
      then max 0 (hp (enemy w) - 40) else hp (enemy w)))
   \<and> (seen (lineOfSight (player w) (enemy w)) \<and> dirOk (lineOfSight (player w) (enemy w))
        \<and> distance (lineOfSight (player w) (enemy w)) = 2 \<and> hp (enemy w) = 100 \<longrightarrow>
        hp (enemy (tankAttack w)) = 60
        \<and> message (tankAttack w) = ''ATTACK hit! Enemy -40 HP''
        \<and> hp (enemy (tankAttack (tankAttack w))) = 20
        \<and> message (tankAttack (tankAttack w)) = ''ATTACK hit! Enemy -40 HP''
        \<and> hp (enemy (tankAttack (tankAttack (tankAttack w)))) = 0
        \<and> message (tankAttack (tankAttack (tankAttack w))) = ''ATTACK hit! Enemy -40 HP'')"
proof (intro conjI impI)
  show "hp (enemy (tankAttack w)) =
     (if seen (lineOfSight (player w) (enemy w)) \<and> dirOk (lineOfSight (player w) (enemy w))
         \<and> distance (lineOfSight (player w) (enemy w)) \<le> 3
      then max 0 (hp (enemy w) - 40) else hp (enemy w))"
    by (simp add: tankAttack_def Let_def)
next
  assume h: "seen (lineOfSight (player w) (enemy w)) \<and> dirOk (lineOfSight (player w) (enemy w))
        \<and> distance (lineOfSight (player w) (enemy w)) = 2 \<and> hp (enemy w) = 100"
  let ?w1 = "tankAttack w" and ?w2 = "tankAttack (tankAttack w)"
  let ?hit = "''ATTACK hit! Enemy -40 HP''"
  have l1: "lineOfSight (player ?w1) (enemy ?w1) = lineOfSight (player w) (enemy w)"
    by (rule tankAttack_los)
  have l2: "lineOfSight (player ?w2) (enemy ?w2) = lineOfSight (player w) (enemy w)"
    by (simp add: tankAttack_los)
  have e1: "?w1 = w\<lparr> enemy := (enemy w)\<lparr> hp := max 0 (hp (enemy w) - 40) \<rparr>, message := ?hit \<rparr>"
    using h by (intro tankAttack_hit) simp_all
  have e2: "?w2 = ?w1\<lparr> enemy := (enemy ?w1)\<lparr> hp := max 0 (hp (enemy ?w1) - 40) \<rparr>, message := ?hit \<rparr>"
    using h l1 by (intro tankAttack_hit) simp_all
  have e3: "tankAttack ?w2 = ?w2\<lparr> enemy := (enemy ?w2)\<lparr> hp := max 0 (hp (enemy ?w2) - 40) \<rparr>, message := ?hit \<rparr>"
    using h l2 by (intro tankAttack_hit) simp_all
  have h1: "hp (enemy ?w1) = 60"
    using h by (subst e1) simp
  have h2: "hp (enemy ?w2) = 20"
    using h1 by (subst e2) simp
  have h3: "hp (enemy (tankAttack ?w2)) = 0"
    using h2 by (subst e3) simp
  show "hp (enemy ?w1) = 60" by (rule h1)
  show "message ?w1 = ?hit" by (subst e1) simp
  show "hp (enemy ?w2) = 20" by (rule h2)
  show "message ?w2 = ?hit" by (subst e2) simp
  show "hp (enemy (tankAttack ?w2)) = 0" by (rule h3)
  show "message (tankAttack ?w2) = ?hit" by (subst e3) simp
qed



theorem tankAttack_spec_witness:
  "seen (lineOfSight (player attack_scene) (enemy attack_scene))
   \<and> dirOk (lineOfSight (player attack_scene) (enemy attack_scene))
   \<and> distance (lineOfSight (player attack_scene) (enemy attack_scene)) = 2
   \<and> hp (enemy attack_scene) = 100
   \<and> hp (enemy (tankAttack attack_scene)) = 60
   \<and> hp (enemy (tankAttack (tankAttack attack_scene))) = 20
   \<and> hp (enemy (tankAttack (tankAttack (tankAttack attack_scene)))) = 0
   \<and> message (tankAttack (tankAttack (tankAttack attack_scene))) = ''ATTACK hit! Enemy -40 HP''"
proof -
  have h: "seen (lineOfSight (player attack_scene) (enemy attack_scene))
   \<and> dirOk (lineOfSight (player attack_scene) (enemy attack_scene))
   \<and> distance (lineOfSight (player attack_scene) (enemy attack_scene)) = 2
   \<and> hp (enemy attack_scene) = 100"
    by (simp add: attack_scene_def lineOfSight_def)
  show ?thesis using h tankAttack_spec [of attack_scene] by blast
qed

subsection \<open>Past the end of the active list\<close>

text \<open>Claim C8. With an empty call stack and the top-level counter at or past the end of the
  top-level list, \<open>stepProgram\<close> returns \<open>False\<close> and changes neither the world nor the
  runtime, and so does any number of further calls. With an active frame whose counter is at
  or past the end of its body, \<open>stepProgram\<close> removes exactly that frame, returns \<open>True\<close>
  and leaves the world and the rest of the runtime unchanged.\<close>

theorem stepProgram_idle_and_pop:
  "(stack rt = [] \<and> pc rt \<ge> length (stmts prog) \<longrightarrow>
      stepProgram world prog rt = Some (Inr (False, world, rt))
      \<and> stepN n prog world rt = Some (Inr (replicate n False, world, rt)))
   \<and> (stack rt \<noteq> [] \<and> fpc (last (stack rt)) \<ge> length (fbody (last (stack rt))) \<longrightarrow>
      stepProgram world prog rt = Some (Inr (True, world, rt\<lparr> stack := butlast (stack rt) \<rparr>)))"
proof (intro conjI impI)
  assume h: "stack rt = [] \<and> pc rt \<ge> length (stmts prog)"
  then show s: "stepProgram world prog rt = Some (Inr (False, world, rt))"
    by (simp add: stepProgram_def)
  show "stepN n prog world rt = Some (Inr (replicate n False, world, rt))"
    by (induction n) (simp_all add: s)
next
  assume "stack rt \<noteq> [] \<and> fpc (last (stack rt)) \<ge> length (fbody (last (stack rt)))"
  then show "stepProgram world prog rt = Some (Inr (True, world, rt\<lparr> stack := butlast (stack rt) \<rparr>))"
    by (auto simp: stepProgram_def last_conv_nth Let_def)
qed

theorem stepProgram_idle_and_pop_witness:
  "stepN 3 \<lparr> stmts = [SNoop], functions_tbl = Map.empty \<rparr> makeInitialWorld (makeRuntime\<lparr> pc := 1 \<rparr>)
     = Some (Inr ([False, False, False], makeInitialWorld, makeRuntime\<lparr> pc := 1 \<rparr>))
   \<and> stepProgram makeInitialWorld \<lparr> stmts = [SNoop], functions_tbl = Map.empty \<rparr>
       (makeRuntime\<lparr> stack := [\<lparr> fname = ''<if>'', fpc = 1, fbody = [SAttack] \<rparr>] \<rparr>)
     = Some (Inr (True, makeInitialWorld, makeRuntime))"
proof -
  let ?prog = "\<lparr> stmts = [SNoop], functions_tbl = Map.empty \<rparr>"
  let ?rt2 = "makeRuntime\<lparr> stack := [\<lparr> fname = ''<if>'', fpc = 1, fbody = [SAttack] \<rparr>] \<rparr>"
  have a: "stack (makeRuntime\<lparr> pc := 1 \<rparr>) = [] \<and> pc (makeRuntime\<lparr> pc := 1 \<rparr>) \<ge> length (stmts ?prog)"
    by (simp add: makeRuntime_def)
  have b: "stack ?rt2 \<noteq> [] \<and> fpc (last (stack ?rt2)) \<ge> length (fbody (last (stack ?rt2)))"
    by simp
  have c: "?rt2\<lparr> stack := butlast (stack ?rt2) \<rparr> = makeRuntime"
    by (simp add: makeRuntime_def)
  show ?thesis
    using a b c
      stepProgram_idle_and_pop [of "makeRuntime\<lparr> pc := 1 \<rparr>" ?prog makeInitialWorld 3]
      stepProgram_idle_and_pop [of ?rt2 ?prog makeInitialWorld 0]
    by (simp add: numeral_3_eq_3)
qed

subsection \<open>The movement loop\<close>

lemma move_loop_finite:
  "i \<le> n \<Longrightarrow> n \<le> counter_max \<Longrightarrow>
   move_loop (enat n) dx dy i p = Some ((move_once dx dy ^^ (n - i)) p)"
proof (induction "n - i" arbitrary: i p)
  case 0
  then show ?case by (subst move_loop.simps) simp
next
  case (Suc k)
  then have lt: "i < n" and k: "k = n - Suc i" by simp_all
  have nxt: "next_counter i = Suc i"
    using lt Suc.prems(2) by (simp add: next_counter_def)
  have "n - i = Suc (n - Suc i)" using lt by simp
  then have "(move_once dx dy ^^ (n - i)) p = (move_once dx dy ^^ (n - Suc i)) (move_once dx dy p)"
    by (simp add: funpow_swap1)
  moreover have "move_loop (enat n) dx dy (Suc i) (move_once dx dy p)
      = Some ((move_once dx dy ^^ (n - Suc i)) (move_once dx dy p))"
    using Suc.hyps(1) [OF k _ Suc.prems(2)] lt by simp
  ultimately show ?case
    using lt nxt by (subst move_loop.simps) simp
qed

lemma move_loop_Some_bounded:
  "move_loop amount dx dy i p = Some q \<Longrightarrow> i \<le> counter_max \<longrightarrow> amount \<le> enat counter_max"
proof (rule move_loop.raw_induct
    [where P = "\<lambda>amount dx dy i p q. i \<le> counter_max \<longrightarrow> amount \<le> enat counter_max"])
  fix mv amount dx dy i p and q :: Tank
  assume ih: "\<And>amount dx dy i p q. mv amount dx dy i p = Some q \<Longrightarrow>
                i \<le> counter_max \<longrightarrow> amount \<le> enat counter_max"
    and eq: "(if enat i < amount then mv amount dx dy (next_counter i) (move_once dx dy p) else Some p) = Some q"
  show "i \<le> counter_max \<longrightarrow> amount \<le> enat counter_max"
  proof
    assume le: "i \<le> counter_max"
    show "amount \<le> enat counter_max"
    proof (cases "enat i < amount")
      case True
      with eq have "mv amount dx dy (next_counter i) (move_once dx dy p) = Some q" by simp
      moreover have "next_counter i \<le> counter_max" using le by (simp add: next_counter_def)
      ultimately show ?thesis using ih by blast
    next
      case False
      then have "amount \<le> enat i" by simp
      also have "enat i \<le> enat counter_max" using le by simp
      finally show ?thesis .
    qed
  qed
qed

lemma move_loop_unbounded: "enat counter_max < amount \<Longrightarrow> move_loop amount dx dy 0 p = None"
  using move_loop_Some_bounded [of amount dx dy 0 p] by (cases "move_loop amount dx dy 0 p") auto

lemma tank_ok_move_once: "tank_ok p \<Longrightarrow> tank_ok (move_once dx dy p)"
  by (auto simp: tank_ok_def move_once_def clamp_def GRID_def Let_def)

lemma tank_ok_move_funpow: "tank_ok p \<Longrightarrow> tank_ok ((move_once dx dy ^^ n) p)"
  by (induction n) (simp_all add: tank_ok_move_once)

lemma tankMove_result:
  assumes "tankMove w d a = Some (Inr w')"
  shows "\<exists>dx dy n. a = enat n \<and> n \<le> counter_max \<and> move_vector (player w) d = Inr (dx, dy)
      \<and> w' = w\<lparr> player := (move_once dx dy ^^ n) (player w) \<rparr>"
proof -
  from assms obtain dx dy p where mv: "move_vector (player w) d = Inr (dx, dy)"
    and lp: "move_loop a dx dy 0 (player w) = Some p" and w': "w' = w\<lparr> player := p \<rparr>"
    by (auto simp: tankMove_def split: sum.splits prod.splits option.splits)
  from move_loop_Some_bounded [OF lp] have "a \<le> enat counter_max" by simp
  then obtain n where a: "a = enat n" and n: "n \<le> counter_max"
    by (cases a) auto
  from lp a n have "p = (move_once dx dy ^^ n) (player w)"
    by (simp add: move_loop_finite)
  with mv w' a n show ?thesis by blast
qed

lemma world_ok_message [simp]: "world_ok (w\<lparr> message := m \<rparr>) = world_ok w"
  by (simp add: world_ok_def)

lemma world_ok_tankMove: "world_ok w \<Longrightarrow> tankMove w d a = Some (Inr w') \<Longrightarrow> world_ok w'"
  by (auto dest!: tankMove_result simp: world_ok_def tank_ok_move_funpow)

lemma world_ok_tankTurn: "world_ok w \<Longrightarrow> world_ok (tankTurn w s)"
  by (auto simp: world_ok_def tank_ok_def tankTurn_def js_rem_def)

lemma world_ok_tankAttack: "world_ok w \<Longrightarrow> world_ok (tankAttack w)"
  by (auto simp: world_ok_def tank_ok_def tankAttack_def Let_def)

lemma world_ok_tankScan: "world_ok w \<Longrightarrow> world_ok (fst (tankScan w rt))"
  by (simp add: tankScan_def Let_def)

lemma world_ok_exec_stmt:
  "world_ok w \<Longrightarrow> exec_stmt fr s w prog rt = Some (Inr (b, w', rt')) \<Longrightarrow> world_ok w'"
  by (cases s)
     (auto simp: exec_stmt_def Let_def world_ok_tankTurn world_ok_tankAttack
           dest: world_ok_tankMove world_ok_tankScan [of w rt]
           split: option.splits sum.splits prod.splits)

lemma world_ok_stepProgram:
  "world_ok w \<Longrightarrow> stepProgram w prog rt = Some (Inr (b, w', rt')) \<Longrightarrow> world_ok w'"
  by (auto simp: stepProgram_def Let_def dest: world_ok_exec_stmt split: if_splits option.splits)

subsection \<open>The enemy policy\<close>

lemma enemyStep_dead: "hp (enemy w) \<le> 0 \<Longrightarrow> enemyStep w = Inr w"
  by (simp add: enemyStep_def Let_def)

lemma enemyStep_fire:
  "0 < hp (enemy w) \<Longrightarrow>
   seen (lineOfSight (enemy w) (player w)) \<and> distance (lineOfSight (enemy w) (player w)) \<le> 3
     \<and> dirOk (lineOfSight (enemy w) (player w)) \<Longrightarrow>
   enemyStep w = Inr (w\<lparr> player := (player w)\<lparr> hp := max 0 (hp (player w) - 15) \<rparr>,
                          message := message w @ '' | Enemy fires (-15 HP)'' \<rparr>)"
  by (simp add: enemyStep_def Let_def)

lemma enemyStep_chase:
  assumes "0 < hp (enemy w)"
    and "\<not> (seen (lineOfSight (enemy w) (player w)) \<and> distance (lineOfSight (enemy w) (player w)) \<le> 3
            \<and> dirOk (lineOfSight (enemy w) (player w)))"
    and "pref = (if y_pos (player w) = y_pos (enemy w) \<and> x_pos (player w) \<noteq> x_pos (enemy w)
                 then (if x_pos (enemy w) < x_pos (player w) then 1 else 3)
                 else (if y_pos (enemy w) < y_pos (player w) then 2 else 0))"
  shows "\<exists>vx vy. DIRS pref = Some (vx, vy) \<and>
     enemyStep w = Inr (w\<lparr> enemy := (enemy w)\<lparr> dir := pref,
         x_pos := clamp (x_pos (enemy w) + vx) 0 (GRID - 1),
         y_pos := clamp (y_pos (enemy w) + vy) 0 (GRID - 1) \<rparr> \<rparr>)"
proof -
  let ?dx = "sgn (x_pos (player w) - x_pos (enemy w))"
  let ?dy = "sgn (y_pos (player w) - y_pos (enemy w))"
  have p: "(if \<bar>?dx\<bar> > \<bar>?dy\<bar> then (if ?dx > 0 then 1 else 3) else (if ?dy > 0 then 2 else 0)) = pref"
    unfolding assms(3) by (simp add: sgn_if)
  have d: "\<exists>vx vy. DIRS pref = Some (vx, vy)"
    unfolding assms(3) by (simp add: DIRS_def)
  then obtain vx vy where v: "DIRS pref = Some (vx, vy)" by blast
  have nf: "(seen (lineOfSight (enemy w) (player w)) \<and> distance (lineOfSight (enemy w) (player w)) \<le> 3
            \<and> dirOk (lineOfSight (enemy w) (player w))) = False"
    using assms(2) by simp
  have "enemyStep w = Inr (w\<lparr> enemy := (enemy w)\<lparr> dir := pref,
         x_pos := clamp (x_pos (enemy w) + vx) 0 (GRID - 1),
         y_pos := clamp (y_pos (enemy w) + vy) 0 (GRID - 1) \<rparr> \<rparr>)"
    unfolding enemyStep_def Let_def p using assms(1) v by (simp add: nf)
  with v show ?thesis by blast
qed

text \<open>Claim C1 says that, when the opponent is alive and does not fire, it turns to the axis
  of the larger absolute offset. The code compares the absolute values of the \<^emph>\<open>signs\<close> of
  the offsets, so (by \<open>enemyStep_chase\<close>) it turns horizontally only when the two tanks are
  on the same row, and vertically in every other case. In the scene below the actor is ten
  columns to the left and one row above the opponent: the larger offset is horizontal, but
  the opponent turns up (facing 0) and moves one cell up.\<close>

theorem enemyStep_prefers_vertical:
  "\<bar>x_pos (player chase_scene) - x_pos (enemy chase_scene)\<bar>
      > \<bar>y_pos (player chase_scene) - y_pos (enemy chase_scene)\<bar>
   \<and> 0 < hp (enemy chase_scene)
   \<and> \<not> seen (lineOfSight (enemy chase_scene) (player chase_scene))
   \<and> enemyStep chase_scene
       = Inr (chase_scene\<lparr> enemy := \<lparr> x_pos = 10, y_pos = 9, dir = 0, hp = 100 \<rparr> \<rparr>)"
  by (simp add: chase_scene_def enemyStep_def lineOfSight_def DIRS_def clamp_def GRID_def)

subsection \<open>Bounds of the tanks\<close>

lemma tank_ok_chase:
  "tank_ok e \<Longrightarrow> DIRS d = Some (vx, vy) \<Longrightarrow>
   tank_ok (e\<lparr> dir := d, x_pos := clamp (x_pos e + vx) 0 (GRID - 1),
               y_pos := clamp (y_pos e + vy) 0 (GRID - 1) \<rparr>)"
  by (auto simp: tank_ok_def clamp_def GRID_def DIRS_def split: if_splits)

lemma world_ok_enemyStep:
  assumes "world_ok w" and "enemyStep w = Inr w'"
  shows "world_ok w'"
proof (cases "hp (enemy w) \<le> 0")
  case True
  with assms show ?thesis by (simp add: enemyStep_dead)
next
  case alive: False
  show ?thesis
  proof (cases "seen (lineOfSight (enemy w) (player w)) \<and> distance (lineOfSight (enemy w) (player w)) \<le> 3
     \<and> dirOk (lineOfSight (enemy w) (player w))")
    case True
    with alive assms(2) have "w' = w\<lparr> player := (player w)\<lparr> hp := max 0 (hp (player w) - 15) \<rparr>,
                          message := message w @ '' | Enemy fires (-15 HP)'' \<rparr>"
      by (simp add: enemyStep_fire)
    with assms(1) show ?thesis by (auto simp: world_ok_def tank_ok_def)
  next
    case False
    from enemyStep_chase [OF _ False refl] alive assms(2)
    obtain d vx vy where "DIRS d = Some (vx, vy)"
      and "w' = w\<lparr> enemy := (enemy w)\<lparr> dir := d,
         x_pos := clamp (x_pos (enemy w) + vx) 0 (GRID - 1),
         y_pos := clamp (y_pos (enemy w) + vy) 0 (GRID - 1) \<rparr> \<rparr>"
      by (auto simp: not_le)
    with assms(1) show ?thesis by (simp add: world_ok_def tank_ok_chase)
  qed
qed

lemma world_ok_init: "world_ok makeInitialWorld"
  by (simp add: world_ok_def tank_ok_def makeInitialWorld_def GRID_def)

text \<open>Claim C6. Every world reachable from the initial world by calls of \<open>stepProgram\<close>
  (with any program and runtime) and of \<open>enemyStep\<close> keeps both tanks inside the grid, with
  health between 0 and 100 and a facing among 0, 1, 2, 3. In particular a move of any amount
  in any direction from a well-formed world, whenever it returns a world, returns a
  well-formed one with the actor inside \<open>[0, GRID-1]\<close> on both axes.\<close>

theorem reachable_world_ok:
  "(reachable w \<longrightarrow> world_ok w)
   \<and> (world_ok w \<and> tankMove w d a = Some (Inr w') \<longrightarrow>
        world_ok w' \<and> inBounds (x_pos (player w')) (y_pos (player w')))"
proof (intro conjI impI)
  assume "reachable w"
  then show "world_ok w"
    by (induction rule: reachable.induct)
       (auto intro: world_ok_init world_ok_stepProgram world_ok_enemyStep)
next
  assume "world_ok w \<and> tankMove w d a = Some (Inr w')"
  then show ok: "world_ok w'" by (auto dest: world_ok_tankMove)
  then show "inBounds (x_pos (player w')) (y_pos (player w'))"
    by (simp add: world_ok_def tank_ok_def inBounds_def)
qed

subsection \<open>One step, by kind of statement\<close>

lemma stepProgram_top:
  "stack rt = [] \<Longrightarrow> pc rt < length (stmts prog) \<Longrightarrow>
   stepProgram w prog rt = exec_stmt None (stmts prog ! pc rt) w prog rt"
  by (simp add: stepProgram_def)

lemma stepProgram_frame:
  "stack rt = fs @ [fr] \<Longrightarrow> fpc fr < length (fbody fr) \<Longrightarrow>
   stepProgram w prog rt = exec_stmt (Some (length fs)) (fbody fr ! fpc fr) w prog rt"
  by (simp add: stepProgram_def)

lemma stepProgram_pop:
  "stack rt = fs @ [fr] \<Longrightarrow> length (fbody fr) \<le> fpc fr \<Longrightarrow>
   stepProgram w prog rt = Some (Inr (True, w, rt\<lparr> stack := fs \<rparr>))"
  by (simp add: stepProgram_def)

lemma advance_top: "advance None rt = rt\<lparr> pc := pc rt + 1 \<rparr>"
  by (simp add: advance_def)

lemma advance_frame:
  "stack rt = fs @ [fr] \<Longrightarrow>
   advance (Some (length fs)) rt = rt\<lparr> stack := fs @ [fr\<lparr> fpc := fpc fr + 1 \<rparr>] \<rparr>"
  by (simp add: advance_def)

lemma advance_frame_pushed:
  "stack rt = fs @ [fr, new] \<Longrightarrow>
   advance (Some (length fs)) rt = rt\<lparr> stack := fs @ [fr\<lparr> fpc := fpc fr + 1 \<rparr>, new] \<rparr>"
  by (simp add: advance_def nth_append)

lemma read_var_own: "vars rt name = Some v \<Longrightarrow> read_var rt name = Some v"
  by (simp add: read_var_def)

lemma inherited_names:
  "inherited name \<noteq> None \<longleftrightarrow> name \<in> set (map fst object_prototype)"
  by (simp add: inherited_def map_of_eq_None_iff)

lemma assign_var_plain:
  "name \<noteq> ''__proto__'' \<Longrightarrow> assign_var name v rt = Some (rt\<lparr> vars := (vars rt)(name \<mapsto> v) \<rparr>)"
  by (simp add: assign_var_def)

lemma exec_assign_var:
  "assign_var name (getVal val rt) rt = Some rt1 \<Longrightarrow>
   exec_stmt fr (SAssign name val) w prog rt =
     Some (Inr (True, w\<lparr> message := ''$'' @ name @ '' = '' @ numToString (getVal (EVar name) rt1) \<rparr>,
                advance fr rt1))"
  by (simp add: exec_stmt_def)

lemma exec_assign:
  "name \<noteq> ''__proto__'' \<Longrightarrow>
   exec_stmt fr (SAssign name val) w prog rt =
     Some (Inr (True, w\<lparr> message := ''$'' @ name @ '' = '' @ numToString (getVal val rt) \<rparr>,
                advance fr (rt\<lparr> vars := (vars rt)(name \<mapsto> getVal val rt) \<rparr>)))"
  by (simp add: exec_assign_var [OF assign_var_plain] read_var_def)

lemma exec_assign_prototype:
  "assign_var name (getVal val rt) rt = None \<Longrightarrow>
   exec_stmt fr (SAssign name val) w prog rt = Some (Inl HostDefined)"
  by (simp add: exec_stmt_def)

lemma exec_move:
  "tankMove w d (loop_bound (move_amount (getVal a rt))) = Some (Inr w1) \<Longrightarrow>
   exec_stmt fr (SMove a d) w prog rt =
     Some (Inr (True, w1\<lparr> message := ''MOVE '' @ show_amount (move_amount (getVal a rt)) @ '' '' @ d \<rparr>,
                advance fr rt))"
  by (simp add: exec_stmt_def Let_def)

lemma exec_move_fail:
  "tankMove w d (loop_bound (move_amount (getVal a rt))) = None \<Longrightarrow>
   exec_stmt fr (SMove a d) w prog rt = None"
  "tankMove w d (loop_bound (move_amount (getVal a rt))) = Some (Inl e) \<Longrightarrow>
   exec_stmt fr (SMove a d) w prog rt = Some (Inl e)"
  by (simp_all add: exec_stmt_def Let_def)

lemma exec_turn:
  "exec_stmt fr (STurn d) w prog rt =
     Some (Inr (True, (tankTurn w d)\<lparr> message := ''TURN '' @ d \<rparr>, advance fr rt))"
  by (simp add: exec_stmt_def Let_def)

lemma exec_scan:
  "exec_stmt fr SScan w prog rt =
     Some (Inr (True, fst (tankScan w rt), advance fr (snd (tankScan w rt))))"
  by (simp add: exec_stmt_def Let_def split: prod.splits)

lemma exec_attack:
  "exec_stmt fr SAttack w prog rt = Some (Inr (True, tankAttack w, advance fr rt))"
  by (simp add: exec_stmt_def Let_def)

lemma exec_if_chosen:
  "(if getVal c rt \<noteq> Fin 0 then Some thenStmt else elseStmt) = Some ch \<Longrightarrow>
   exec_stmt fr (SIf c thenStmt elseStmt) w prog rt =
     Some (Inr (True, w, rt\<lparr> stack := stack rt @ [\<lparr> fname = ''<if>'', fpc = 0, fbody = [ch] \<rparr>] \<rparr>))"
  by (simp add: exec_stmt_def Let_def)

lemma exec_if_none:
  "(if getVal c rt \<noteq> Fin 0 then Some thenStmt else elseStmt) = None \<Longrightarrow>
   exec_stmt fr (SIf c thenStmt elseStmt) w prog rt =
     Some (Inr (True, w\<lparr> message := ''IF ('' @ numToString (getVal c rt) @ '') no-op'' \<rparr>,
                advance fr rt))"
  by (simp add: exec_stmt_def Let_def)

lemma lookup_function_own:
  "functions_tbl prog name = Some body \<Longrightarrow> lookup_function prog name = Some body"
  by (simp add: lookup_function_def)

lemma lookup_function_None:
  "lookup_function prog name = None \<longleftrightarrow> functions_tbl prog name = None \<and> inherited name = None"
  by (simp add: lookup_function_def split: option.splits)

lemma exec_call_defined:
  "lookup_function prog name = Some body \<Longrightarrow>
   exec_stmt fr (SCall name) w prog rt =
     Some (Inr (True, w\<lparr> message := ''CALL '' @ name \<rparr>,
                advance fr (rt\<lparr> stack := stack rt @ [\<lparr> fname = name, fpc = 0, fbody = body \<rparr>] \<rparr>)))"
  by (simp add: exec_stmt_def Let_def)

lemma exec_call_undefined:
  "lookup_function prog name = None \<Longrightarrow>
   exec_stmt fr (SCall name) w prog rt =
     Some (Inr (True, w\<lparr> message := ''CALL '' @ name \<rparr>, advance fr rt))"
  by (simp add: exec_stmt_def Let_def)

lemma exec_undefined: "exec_stmt fr SUndefined w prog rt = Some (Inl TypeError)"
  by (simp add: exec_stmt_def)

lemma exec_noop:
  "exec_stmt fr SNoop w prog rt = Some (Inr (True, w, advance fr rt))"
  "exec_stmt fr (SFunction name body) w prog rt = Some (Inr (True, w, advance fr rt))"
  by (simp_all add: exec_stmt_def Let_def)

lemma tankMove_enat:
  "move_vector (player w) d = Inr (dx, dy) \<Longrightarrow> n \<le> counter_max \<Longrightarrow>
   tankMove w d (enat n) = Some (Inr (w\<lparr> player := (move_once dx dy ^^ n) (player w) \<rparr>))"
  by (simp add: tankMove_def move_loop_finite)

lemma tankMove_unbounded:
  "move_vector (player w) d = Inr (dx, dy) \<Longrightarrow> enat counter_max < a \<Longrightarrow> tankMove w d a = None"
  by (simp add: tankMove_def move_loop_unbounded)

lemma tankMove_type_error:
  "move_vector (player w) d = Inl e \<Longrightarrow> tankMove w d a = Some (Inl e)"
  by (simp add: tankMove_def)

theorem reachable_world_ok_witness:
  "reachable (makeInitialWorld\<lparr> player := \<lparr> x_pos = 2, y_pos = 19, dir = 0, hp = 100 \<rparr>,
                               message := ''MOVE 3 BACKWARD'' \<rparr>)
   \<and> world_ok (makeInitialWorld\<lparr> player := \<lparr> x_pos = 2, y_pos = 19, dir = 0, hp = 100 \<rparr>,
                               message := ''MOVE 3 BACKWARD'' \<rparr>)
   \<and> tankMove makeInitialWorld ''BACKWARD'' (enat 3)
       = Some (Inr (makeInitialWorld\<lparr> player := \<lparr> x_pos = 2, y_pos = 19, dir = 0, hp = 100 \<rparr> \<rparr>))
   \<and> inBounds 2 19"
proof -
  let ?p = "\<lparr> x_pos = 2, y_pos = 19, dir = 0, hp = 100 \<rparr>"
  let ?w1 = "makeInitialWorld\<lparr> player := ?p \<rparr>"
  let ?w2 = "makeInitialWorld\<lparr> player := ?p, message := ''MOVE 3 BACKWARD'' \<rparr>"
  let ?prog = "\<lparr> stmts = [SMove (ENumber (Fin 3)) ''BACKWARD''], functions_tbl = Map.empty \<rparr>"
  have v: "move_vector (player makeInitialWorld) ''BACKWARD'' = Inr (0, 1)"
    by (simp add: move_vector_def DIRS_def makeInitialWorld_def)
  have m: "(move_once 0 1 ^^ 3) (player makeInitialWorld) = ?p"
    by (simp add: numeral_3_eq_3 move_once_def clamp_def GRID_def makeInitialWorld_def)
  have t: "tankMove makeInitialWorld ''BACKWARD'' (enat 3) = Some (Inr ?w1)"
    by (simp add: tankMove_enat [OF v] m counter_max_def)
  have a: "move_amount (getVal (ENumber (Fin 3)) makeRuntime) = Some (enat 3)"
    by (simp add: move_amount_def)
  have e: "exec_stmt None (SMove (ENumber (Fin 3)) ''BACKWARD'') makeInitialWorld ?prog makeRuntime
             = Some (Inr (True, ?w2, advance None makeRuntime))"
    using t by (subst exec_move [where ?w1.0 = ?w1])
      (simp_all only: a loop_bound_def option.case, simp add: show_amount_def digit_char_def)
  have s: "stepProgram makeInitialWorld ?prog makeRuntime
             = Some (Inr (True, ?w2, advance None makeRuntime))"
    by (subst stepProgram_top) (simp_all add: makeRuntime_def e [unfolded makeRuntime_def])
  have r: "reachable ?w2"
    by (rule reach_step [OF reach_init s])
  have ok: "world_ok makeInitialWorld"
    using reachable_world_ok [of makeInitialWorld] reach_init by blast
  from reachable_world_ok [of ?w2] r
       reachable_world_ok [of makeInitialWorld "''BACKWARD''" "enat 3" ?w1] ok t
  show ?thesis by simp
qed

subsection \<open>Frames below the active one\<close>

lemma tankScan_rt:
  "stack (snd (tankScan w rt)) = stack rt" "pc (snd (tankScan w rt)) = pc rt"
  by (simp_all add: tankScan_def Let_def)

lemma advance_frame_pc: "pc (advance (Some i) rt) = pc rt"
  by (simp add: advance_def)

lemma assign_var_rt:
  "assign_var name v rt = Some rt1 \<Longrightarrow> stack rt1 = stack rt \<and> pc rt1 = pc rt"
  by (auto simp: assign_var_def split: if_splits)

lemma exec_stmt_in_frame:
  assumes "stack rt = fs @ [fr]"
    and "exec_stmt (Some (length fs)) s w prog rt = Some (Inr (b, w', rt'))"
  shows "b \<and> pc rt' = pc rt \<and> (\<exists>fr' rest. stack rt' = fs @ fr' # rest)"
proof (cases s)
  case (SAssign name val)
  with assms obtain rt1 where a: "assign_var name (getVal val rt) rt = Some rt1"
    and r: "rt' = advance (Some (length fs)) rt1" and b: b
    by (auto simp: exec_stmt_def split: option.splits)
  from assign_var_rt [OF a] assms(1) r b show ?thesis by (auto simp: advance_def)
next
  case (SMove a d)
  with assms show ?thesis
    by (auto simp: exec_stmt_def Let_def advance_def split: option.splits sum.splits)
next
  case (STurn d)
  with assms show ?thesis by (auto simp: exec_turn advance_def)
next
  case SScan
  with assms show ?thesis by (auto simp: exec_scan advance_def tankScan_rt)
next
  case SAttack
  with assms show ?thesis by (auto simp: exec_attack advance_def)
next
  case (SIf c t e)
  with assms show ?thesis
    by (auto simp: exec_stmt_def Let_def advance_def split: option.splits if_splits)
next
  case (SCall name)
  with assms show ?thesis
    by (cases "lookup_function prog name")
       (auto simp: exec_call_defined exec_call_undefined advance_def nth_append)
next
  case SNoop
  with assms show ?thesis by (auto simp: exec_noop advance_def)
next
  case (SFunction name body)
  with assms show ?thesis by (auto simp: exec_noop advance_def)
next
  case SUndefined
  with assms show ?thesis by (simp add: exec_undefined)
qed

lemma step_keeps_below:
  assumes "stack rt \<noteq> []" and "stepProgram w prog rt = Some (Inr (b, w', rt'))"
  shows "b \<and> pc rt' = pc rt \<and> take (length (stack rt) - 1) (stack rt') = butlast (stack rt)"
proof -
  from assms(1) obtain fs fr where s: "stack rt = fs @ [fr]"
    by (cases "stack rt" rule: rev_cases) auto
  show ?thesis
  proof (cases "fpc fr < length (fbody fr)")
    case True
    with s assms(2) have "exec_stmt (Some (length fs)) (fbody fr ! fpc fr) w prog rt = Some (Inr (b, w', rt'))"
      by (simp add: stepProgram_frame)
    from exec_stmt_in_frame [OF s this] s show ?thesis by auto
  next
    case False
    with s assms(2) show ?thesis by (auto simp: stepProgram_pop)
  qed
qed

lemma stepN_keeps_below:
  assumes "stepN n prog w rt = Some (Inr (bs, w', rt'))"
    and "\<forall>m<n. \<forall>bs1 w1 rt1. stepN m prog w rt = Some (Inr (bs1, w1, rt1)) \<longrightarrow> k < length (stack rt1)"
  shows "take k (stack rt') = take k (stack rt) \<and> pc rt' = pc rt"
  using assms
proof (induction n arbitrary: w rt bs)
  case 0
  then show ?case by simp
next
  case (Suc n)
  from Suc.prems(1) obtain b w1 rt1 bs1 where
    st: "stepProgram w prog rt = Some (Inr (b, w1, rt1))" and
    rest: "stepN n prog w1 rt1 = Some (Inr (bs1, w', rt'))"
    by (auto split: option.splits sum.splits prod.splits)
  from Suc.prems(2) [rule_format, of 0] have k: "k < length (stack rt)" by simp
  then have ne: "stack rt \<noteq> []" by auto
  from step_keeps_below [OF ne st]
  have p: "pc rt1 = pc rt" and t: "take (length (stack rt) - 1) (stack rt1) = butlast (stack rt)"
    by simp_all
  have "\<forall>m<n. \<forall>bs2 w2 rt2. stepN m prog w1 rt1 = Some (Inr (bs2, w2, rt2)) \<longrightarrow> k < length (stack rt2)"
  proof (intro allI impI)
    fix m bs2 w2 rt2
    assume "m < n" and "stepN m prog w1 rt1 = Some (Inr (bs2, w2, rt2))"
    then have "Suc m < Suc n" and "stepN (Suc m) prog w rt = Some (Inr (b # bs2, w2, rt2))"
      using st by simp_all
    with Suc.prems(2) show "k < length (stack rt2)" by blast
  qed
  from Suc.IH [OF rest this] have ih: "take k (stack rt') = take k (stack rt1)" "pc rt' = pc rt1"
    by simp_all
  have "take k (stack rt1) = take k (take (length (stack rt) - 1) (stack rt1))"
    using k by (auto simp: min_def)
  also have "\<dots> = take k (butlast (stack rt))" by (simp only: t)
  also have "\<dots> = take k (stack rt)" using k by (simp add: take_butlast)
  finally show ?case using ih p by simp
qed

lemma active_top:
  "stack rt = [] \<Longrightarrow> active_list prog rt = stmts prog"
  "stack rt = [] \<Longrightarrow> active_pc rt = pc rt"
  by (simp_all add: active_list_def active_pc_def)

lemma active_frame:
  "stack rt = fs @ [fr] \<Longrightarrow> active_list prog rt = fbody fr"
  "stack rt = fs @ [fr] \<Longrightarrow> active_pc rt = fpc fr"
  by (simp_all add: active_list_def active_pc_def)

lemma active_stmt_step:
  assumes "active_stmt prog rt = Some s"
  shows "stepProgram w prog rt =
           exec_stmt (if stack rt = [] then None else Some (length (stack rt) - 1)) s w prog rt"
proof (cases "stack rt" rule: rev_cases)
  case Nil
  with assms show ?thesis
    by (auto simp: active_stmt_def active_top stepProgram_top split: if_splits)
next
  case (snoc fs fr)
  with assms show ?thesis
    by (auto simp: active_stmt_def active_frame [OF snoc] stepProgram_frame split: if_splits)
qed

lemma active_stmt_cong:
  "stack rt' = stack rt \<Longrightarrow> pc rt' = pc rt \<Longrightarrow> active_stmt prog rt' = active_stmt prog rt"
  by (simp add: active_stmt_def active_list_def active_pc_def)

text \<open>Claim C10. When the active statement is a conditional that selects a branch (the
  condition is non-zero, or it is zero and there is an else-branch), \<open>stepProgram\<close> pushes a
  one-statement frame labelled \<open><if>\<close>, returns \<open>True\<close>, and changes neither the world, nor
  the top-level counter, nor any frame already on the stack. For any number of further steps
  during which the stack stays longer than it was, the frames that were on the stack and the
  top-level counter are still unchanged; so when the stack is back at its former length it
  is the former stack, and the same conditional is the active statement again: the counter
  never moves past a conditional that selects a branch.\<close>

theorem if_branch_keeps_counter:
  assumes act: "active_stmt prog rt = Some (SIf c thenStmt elseStmt)"
    and ch: "(if getVal c rt \<noteq> Fin 0 then Some thenStmt else elseStmt) = Some ch"
  shows "stepProgram w prog rt
           = Some (Inr (True, w, rt\<lparr> stack := stack rt @ [\<lparr> fname = ''<if>'', fpc = 0, fbody = [ch] \<rparr>] \<rparr>))
     \<and> (\<forall>n bs w' rt'.
          stepN n prog w (rt\<lparr> stack := stack rt @ [\<lparr> fname = ''<if>'', fpc = 0, fbody = [ch] \<rparr>] \<rparr>)
             = Some (Inr (bs, w', rt'))
          \<and> (\<forall>m<n. \<forall>bs1 w1 rt1.
                stepN m prog w (rt\<lparr> stack := stack rt @ [\<lparr> fname = ''<if>'', fpc = 0, fbody = [ch] \<rparr>] \<rparr>)
                   = Some (Inr (bs1, w1, rt1))
                \<longrightarrow> length (stack rt) < length (stack rt1))
          \<longrightarrow> take (length (stack rt)) (stack rt') = stack rt \<and> pc rt' = pc rt
              \<and> (length (stack rt') = length (stack rt)
                   \<longrightarrow> stack rt' = stack rt \<and> active_stmt prog rt' = Some (SIf c thenStmt elseStmt)))"
proof (intro conjI allI impI)
  let ?rt1 = "rt\<lparr> stack := stack rt @ [\<lparr> fname = ''<if>'', fpc = 0, fbody = [ch] \<rparr>] \<rparr>"
  show "stepProgram w prog rt = Some (Inr (True, w, ?rt1))"
    by (simp add: active_stmt_step [OF act] exec_if_chosen [OF ch])
  fix n bs w' rt'
  assume run: "stepN n prog w ?rt1 = Some (Inr (bs, w', rt'))
          \<and> (\<forall>m<n. \<forall>bs1 w1 rt1. stepN m prog w ?rt1 = Some (Inr (bs1, w1, rt1))
                \<longrightarrow> length (stack rt) < length (stack rt1))"
  from stepN_keeps_below [of n prog w ?rt1 bs w' rt' "length (stack rt)"] run
  have k: "take (length (stack rt)) (stack rt') = take (length (stack rt)) (stack ?rt1)"
    and p: "pc rt' = pc ?rt1"
    by blast+
  from k show t: "take (length (stack rt)) (stack rt') = stack rt" by simp
  from p show p': "pc rt' = pc rt" by simp
  {
    assume "length (stack rt') = length (stack rt)"
    with t show s: "stack rt' = stack rt" by (metis take_all order_refl)
    from active_stmt_cong [OF s p'] act
    show "active_stmt prog rt' = Some (SIf c thenStmt elseStmt)" by simp
  }
qed

lemma stepN_Cons:
  "stepProgram w prog rt = Some (Inr (b, w1, rt1)) \<Longrightarrow>
   stepN n prog w1 rt1 = Some (Inr (bs, w2, rt2)) \<Longrightarrow>
   stepN (Suc n) prog w rt = Some (Inr (b # bs, w2, rt2))"
  by simp

lemma stepN_0: "stepN 0 prog w rt = Some (Inr ([], w, rt))"
  by simp

theorem if_branch_keeps_counter_witness:
  "active_stmt \<lparr> stmts = [SIf (ENumber (Fin 1)) SAttack None], functions_tbl = Map.empty \<rparr> makeRuntime
     = Some (SIf (ENumber (Fin 1)) SAttack None)
   \<and> stepProgram makeInitialWorld \<lparr> stmts = [SIf (ENumber (Fin 1)) SAttack None], functions_tbl = Map.empty \<rparr>
        makeRuntime
     = Some (Inr (True, makeInitialWorld,
          makeRuntime\<lparr> stack := [\<lparr> fname = ''<if>'', fpc = 0, fbody = [SAttack] \<rparr>] \<rparr>))
   \<and> stepN 2 \<lparr> stmts = [SIf (ENumber (Fin 1)) SAttack None], functions_tbl = Map.empty \<rparr> makeInitialWorld
        (makeRuntime\<lparr> stack := [\<lparr> fname = ''<if>'', fpc = 0, fbody = [SAttack] \<rparr>] \<rparr>)
     = Some (Inr ([True, True], tankAttack makeInitialWorld, makeRuntime))"
proof -
  let ?if = "SIf (ENumber (Fin 1)) SAttack None"
  let ?P = "\<lparr> stmts = [?if], functions_tbl = Map.empty \<rparr>"
  let ?f = "\<lparr> fname = ''<if>'', fpc = 0, fbody = [SAttack] \<rparr>"
  let ?R1 = "makeRuntime\<lparr> stack := [?f] \<rparr>"
  let ?R2 = "makeRuntime\<lparr> stack := [?f\<lparr> fpc := 1 \<rparr>] \<rparr>"
  let ?W = makeInitialWorld
  have act: "active_stmt ?P makeRuntime = Some ?if"
    by (simp add: active_stmt_def active_list_def active_pc_def makeRuntime_def)
  have ch: "(if getVal (ENumber (Fin 1)) makeRuntime \<noteq> Fin 0 then Some SAttack else None) = Some SAttack"
    by simp
  have e: "stack makeRuntime = []" by (simp add: makeRuntime_def)
  have s1: "stepProgram ?W ?P ?R1 = Some (Inr (True, tankAttack ?W, ?R2))"
    by (subst stepProgram_frame [where fs = "[]" and fr = ?f])
       (simp_all add: exec_attack advance_def)
  have s2: "stepProgram (tankAttack ?W) ?P ?R2 = Some (Inr (True, tankAttack ?W, makeRuntime))"
    by (subst stepProgram_pop [where fs = "[]" and fr = "?f\<lparr> fpc := 1 \<rparr>"])
       (simp_all add: makeRuntime_def)
  have run: "stepN 2 ?P ?W ?R1 = Some (Inr ([True, True], tankAttack ?W, makeRuntime))"
    unfolding numeral_2_eq_2 by (rule stepN_Cons [OF s1], rule stepN_Cons [OF s2], rule stepN_0)
  from if_branch_keeps_counter [OF act ch, of ?W] e
  have "stepProgram ?W ?P makeRuntime = Some (Inr (True, ?W, ?R1))" by simp
  with act run show ?thesis by simp
qed

lemma stepN_snoc:
  "stepN n prog w rt = Some (Inr (bs, w1, rt1)) \<Longrightarrow>
   stepProgram w1 prog rt1 = Some (Inr (b, w2, rt2)) \<Longrightarrow>
   stepN (Suc n) prog w rt = Some (Inr (bs @ [b], w2, rt2))"
proof (induction n arbitrary: w rt bs)
  case 0
  then show ?case by simp
next
  case (Suc n)
  from Suc.prems(1) obtain b0 w0 rt0 bs0 where
    st: "stepProgram w prog rt = Some (Inr (b0, w0, rt0))" and
    rest: "stepN n prog w0 rt0 = Some (Inr (bs0, w1, rt1))" and bs: "bs = b0 # bs0"
    by (auto split: option.splits sum.splits prod.splits)
  from Suc.IH [OF rest Suc.prems(2)] st bs show ?case by simp
qed

subsection \<open>Draining a called function\<close>

lemma facing_move_once: "dir (move_once dx dy p) = dir p"
  by (simp add: move_once_def Let_def)

lemma facing_move_funpow: "dir ((move_once dx dy ^^ n) p) = dir p"
  by (induction n) (simp_all add: facing_move_once)

lemma move_vector_facing_ok:
  "facing_ok p \<Longrightarrow> \<exists>dx dy. move_vector p d = Inr (dx, dy)"
proof -
  assume "facing_ok p"
  then consider "dir p = 0" | "dir p = 1" | "dir p = 2" | "dir p = 3"
    by (auto simp: facing_ok_def)
  then show ?thesis
  proof cases
    case 1 then show ?thesis by (simp add: move_vector_def DIRS_def js_rem_def)
  next
    case 2 then show ?thesis by (simp add: move_vector_def DIRS_def js_rem_def)
  next
    case 3 then show ?thesis by (simp add: move_vector_def DIRS_def js_rem_def)
  next
    case 4 then show ?thesis by (simp add: move_vector_def DIRS_def js_rem_def)
  qed
qed

lemma facing_ok_tankTurn: "facing_ok (player w) \<Longrightarrow> facing_ok (player (tankTurn w s))"
  by (auto simp: facing_ok_def tankTurn_def js_rem_def)

lemma tankScan_player: "player (fst (tankScan w rt)) = player w"
  by (simp add: tankScan_def Let_def)

lemma flat_exec:
  assumes s: "stack rt = fs @ [fr]"
    and flat: "flat_now prog rt st"
    and face: "facing_ok (player w)"
  shows "\<exists>w' rt'. exec_stmt (Some (length fs)) st w prog rt = Some (Inr (True, w', rt'))
           \<and> stack rt' = fs @ [fr\<lparr> fpc := Suc (fpc fr) \<rparr>] \<and> pc rt' = pc rt
           \<and> facing_ok (player w')"
proof (cases st)
  case (SAssign name val)
  with flat obtain rt1 where a: "assign_var name (getVal val rt) rt = Some rt1" by auto
  from assign_var_rt [OF a] s have "stack rt1 = fs @ [fr]" "pc rt1 = pc rt" by simp_all
  with SAssign face show ?thesis
    by (simp add: exec_assign_var [OF a]) (simp add: advance_def)
next
  case (SMove a d)
  with flat have "loop_bound (move_amount (getVal a rt)) \<le> enat counter_max" by simp
  then obtain n where n: "loop_bound (move_amount (getVal a rt)) = enat n" and le: "n \<le> counter_max"
    by (cases "loop_bound (move_amount (getVal a rt))") auto
  from face obtain dx dy where v: "move_vector (player w) d = Inr (dx, dy)"
    using move_vector_facing_ok by blast
  have t: "tankMove w d (loop_bound (move_amount (getVal a rt)))
             = Some (Inr (w\<lparr> player := (move_once dx dy ^^ n) (player w) \<rparr>))"
    by (simp add: n tankMove_enat [OF v le])
  from face have "facing_ok ((move_once dx dy ^^ n) (player w))"
    by (simp add: facing_ok_def facing_move_funpow)
  with SMove s show ?thesis
    by (simp add: exec_move [OF t]) (simp add: advance_def)
next
  case (STurn d)
  with s facing_ok_tankTurn [OF face, of d] show ?thesis
    by (simp add: exec_turn) (simp add: advance_def)
next
  case SScan
  with s face show ?thesis
    by (simp add: exec_scan tankScan_player) (simp add: advance_def tankScan_rt)
next
  case SAttack
  with s face show ?thesis
    by (simp add: exec_attack tankAttack_player) (simp add: advance_def)
next
  case (SIf c t e)
  with flat have "(if getVal c rt \<noteq> Fin 0 then Some t else e) = None" by simp
  from exec_if_none [OF this] SIf s face show ?thesis
    by simp (simp add: advance_def)
next
  case (SCall name)
  with flat have "lookup_function prog name = None" by simp
  with SCall s face show ?thesis
    by (simp add: exec_call_undefined) (simp add: advance_def)
next
  case SNoop
  with s face show ?thesis
    by (simp add: exec_noop) (simp add: advance_def)
next
  case (SFunction name body)
  with s face show ?thesis
    by (simp add: exec_noop) (simp add: advance_def)
next
  case SUndefined
  with flat show ?thesis by simp
qed

lemma flat_run:
  assumes st: "stack rt = fs @ [fr]"
    and face: "facing_ok (player w)"
  shows "fpc fr + j \<le> length (fbody fr) \<Longrightarrow>
         (\<forall>k<j. \<forall>bs wk rtk. stepN k prog w rt = Some (Inr (bs, wk, rtk))
              \<longrightarrow> flat_now prog rtk (fbody fr ! (fpc fr + k))) \<Longrightarrow>
         \<exists>w' rt'. stepN j prog w rt = Some (Inr (replicate j True, w', rt'))
           \<and> stack rt' = fs @ [fr\<lparr> fpc := fpc fr + j \<rparr>] \<and> pc rt' = pc rt
           \<and> facing_ok (player w')"
proof (induction j)
  case 0
  with st face show ?case by simp
next
  case (Suc j)
  from Suc.prems have "fpc fr + j \<le> length (fbody fr)"
    and "\<forall>k<j. \<forall>bs wk rtk. stepN k prog w rt = Some (Inr (bs, wk, rtk))
              \<longrightarrow> flat_now prog rtk (fbody fr ! (fpc fr + k))"
    by simp_all
  from Suc.IH [OF this] obtain w1 rt1 where
    run: "stepN j prog w rt = Some (Inr (replicate j True, w1, rt1))"
    and st1: "stack rt1 = fs @ [fr\<lparr> fpc := fpc fr + j \<rparr>]" and p: "pc rt1 = pc rt"
    and face1: "facing_ok (player w1)"
    by auto
  let ?fr = "fr\<lparr> fpc := fpc fr + j \<rparr>"
  from Suc.prems(1) have lt: "fpc ?fr < length (fbody ?fr)" by simp
  from Suc.prems(2) run have "flat_now prog rt1 (fbody fr ! (fpc fr + j))" by blast
  then have "flat_now prog rt1 (fbody ?fr ! fpc ?fr)" by simp
  from flat_exec [OF st1 this face1] obtain w2 rt2 where
    e: "exec_stmt (Some (length fs)) (fbody ?fr ! fpc ?fr) w1 prog rt1 = Some (Inr (True, w2, rt2))"
    and r: "stack rt2 = fs @ [?fr\<lparr> fpc := Suc (fpc ?fr) \<rparr>]" "pc rt2 = pc rt1"
           "facing_ok (player w2)"
    by blast
  from stepProgram_frame [OF st1 lt] e
  have "stepProgram w1 prog rt1 = Some (Inr (True, w2, rt2))" by simp
  from stepN_snoc [OF run this]
  have "stepN (Suc j) prog w rt = Some (Inr (replicate (Suc j) True, w2, rt2))"
    by (simp add: replicate_append_same)
  with r p show ?case by simp
qed

lemma drain_frame:
  assumes st: "stack rt1 = fs @ [new]" and z: "fpc new = 0"
    and flat: "\<forall>k<length (fbody new). \<forall>bs wk rtk. stepN k prog w1 rt1 = Some (Inr (bs, wk, rtk))
                 \<longrightarrow> flat_now prog rtk (fbody new ! k)"
    and face: "facing_ok (player w1)"
  shows "(\<forall>k\<le>length (fbody new). \<exists>wk rtk.
            stepN k prog w1 rt1 = Some (Inr (replicate k True, wk, rtk))
            \<and> stack rtk = fs @ [new\<lparr> fpc := k \<rparr>])
       \<and> (\<exists>w2 rt2. stepN (Suc (length (fbody new))) prog w1 rt1
                      = Some (Inr (replicate (Suc (length (fbody new))) True, w2, rt2))
            \<and> stack rt2 = fs \<and> pc rt2 = pc rt1)"
proof (intro conjI allI impI)
  fix k assume k: "k \<le> length (fbody new)"
  have "fpc new + k \<le> length (fbody new)" using k z by simp
  moreover have "\<forall>i<k. \<forall>bs wk rtk. stepN i prog w1 rt1 = Some (Inr (bs, wk, rtk))
                 \<longrightarrow> flat_now prog rtk (fbody new ! (fpc new + i))"
    using flat k z by simp
  ultimately show "\<exists>wk rtk. stepN k prog w1 rt1 = Some (Inr (replicate k True, wk, rtk))
            \<and> stack rtk = fs @ [new\<lparr> fpc := k \<rparr>]"
    using flat_run [OF st face, of k prog] z by auto
next
  let ?n = "length (fbody new)"
  have "fpc new + ?n \<le> length (fbody new)" using z by simp
  moreover have "\<forall>i<?n. \<forall>bs wk rtk. stepN i prog w1 rt1 = Some (Inr (bs, wk, rtk))
                 \<longrightarrow> flat_now prog rtk (fbody new ! (fpc new + i))"
    using flat z by simp
  ultimately obtain wn rtn where
    run: "stepN ?n prog w1 rt1 = Some (Inr (replicate ?n True, wn, rtn))"
    and s: "stack rtn = fs @ [new\<lparr> fpc := ?n \<rparr>]" and p: "pc rtn = pc rt1"
    using flat_run [OF st face, of ?n prog] z by auto
  have "stepProgram wn prog rtn = Some (Inr (True, wn, rtn\<lparr> stack := fs \<rparr>))"
    by (rule stepProgram_pop [OF s]) simp
  from stepN_snoc [OF run this]
  have "stepN (Suc ?n) prog w1 rt1 = Some (Inr (replicate (Suc ?n) True, wn, rtn\<lparr> stack := fs \<rparr>))"
    by (simp add: replicate_append_same)
  with p show "\<exists>w2 rt2. stepN (Suc ?n) prog w1 rt1 = Some (Inr (replicate (Suc ?n) True, w2, rt2))
            \<and> stack rt2 = fs \<and> pc rt2 = pc rt1"
    by simp
qed

text \<open>Claim C3, amended. Let the active statement be a call of a function that the table
  holds, with a body of \<open>N\<close> statements, in a world whose actor faces properly. The call
  step returns \<open>True\<close>. Suppose that each body statement is flat in the runtime in which
  it comes to be executed: it is not a conditional that selects a branch there, not a call
  of a name that the table holds or inherits, not a move by more than \<open>2^53\<close>, not an
  assignment that makes a built-in function the prototype of the variable store, and not
  a hole of the body. Then after each of the next \<open>k \<le> N\<close> steps, all returning \<open>True\<close>, the frame of the
  function is still the active one, with counter \<open>k\<close>; and after exactly \<open>N + 1\<close> steps the
  frame is gone and the active statement is the one after the call site.\<close>

theorem call_drains_flat_body:
  assumes act: "active_stmt prog rt = Some (SCall f)"
    and def: "functions_tbl prog f = Some body"
    and face: "facing_ok (player w)"
  shows "\<exists>w1 rt1. stepProgram w prog rt = Some (Inr (True, w1, rt1))
     \<and> ((\<forall>k<length body. \<forall>bs wk rtk.
            stepN k prog w1 rt1 = Some (Inr (bs, wk, rtk)) \<longrightarrow> flat_now prog rtk (body ! k))
        \<longrightarrow> (\<forall>k\<le>length body. \<exists>wk rtk.
               stepN k prog w1 rt1 = Some (Inr (replicate k True, wk, rtk))
               \<and> length (stack rtk) = Suc (length (stack rt))
               \<and> fname (last (stack rtk)) = f
               \<and> active_list prog rtk = body \<and> active_pc rtk = k)
          \<and> (\<exists>w2 rt2. stepN (Suc (length body)) prog w1 rt1
                       = Some (Inr (replicate (Suc (length body)) True, w2, rt2))
               \<and> length (stack rt2) = length (stack rt)
               \<and> active_list prog rt2 = active_list prog rt
               \<and> active_pc rt2 = Suc (active_pc rt)))"
proof -
  let ?new = "\<lparr> fname = f, fpc = 0, fbody = body \<rparr>"
  let ?w1 = "w\<lparr> message := ''CALL '' @ f \<rparr>"
  let ?fr = "if stack rt = [] then None else Some (length (stack rt) - 1)"
  let ?rt1 = "advance ?fr (rt\<lparr> stack := stack rt @ [?new] \<rparr>)"
  have step: "stepProgram w prog rt = Some (Inr (True, ?w1, ?rt1))"
    by (simp add: active_stmt_step [OF act] exec_call_defined [OF lookup_function_own [OF def]])
  have face1: "facing_ok (player ?w1)" using face by simp
  have "\<exists>fs. stack ?rt1 = fs @ [?new] \<and> length fs = length (stack rt)
          \<and> (\<forall>rt2. stack rt2 = fs \<and> pc rt2 = pc ?rt1 \<longrightarrow>
                 active_list prog rt2 = active_list prog rt \<and> active_pc rt2 = Suc (active_pc rt))"
  proof (cases "stack rt" rule: rev_cases)
    case Nil
    then have "stack ?rt1 = [] @ [?new]" "pc ?rt1 = Suc (pc rt)"
      by (simp_all add: advance_def)
    with Nil show ?thesis
      by (intro exI [of _ "[]"]) (simp add: active_list_def active_pc_def)
  next
    case (snoc gs fr)
    then have "stack ?rt1 = (gs @ [fr\<lparr> fpc := Suc (fpc fr) \<rparr>]) @ [?new]"
      by (simp add: advance_def nth_append)
    with snoc show ?thesis
      by (intro exI [of _ "gs @ [fr\<lparr> fpc := Suc (fpc fr) \<rparr>]"])
         (simp add: active_list_def active_pc_def)
  qed
  then obtain fs where st: "stack ?rt1 = fs @ [?new]" and len: "length fs = length (stack rt)"
    and ret: "\<And>rt2. stack rt2 = fs \<Longrightarrow> pc rt2 = pc ?rt1 \<Longrightarrow>
                 active_list prog rt2 = active_list prog rt \<and> active_pc rt2 = Suc (active_pc rt)"
    by blast
  have "(\<forall>k\<le>length body. \<exists>wk rtk.
               stepN k prog ?w1 ?rt1 = Some (Inr (replicate k True, wk, rtk))
               \<and> length (stack rtk) = Suc (length (stack rt))
               \<and> fname (last (stack rtk)) = f
               \<and> active_list prog rtk = body \<and> active_pc rtk = k)
          \<and> (\<exists>w2 rt2. stepN (Suc (length body)) prog ?w1 ?rt1
                       = Some (Inr (replicate (Suc (length body)) True, w2, rt2))
               \<and> length (stack rt2) = length (stack rt)
               \<and> active_list prog rt2 = active_list prog rt
               \<and> active_pc rt2 = Suc (active_pc rt))"
    if flat: "\<forall>k<length body. \<forall>bs wk rtk.
            stepN k prog ?w1 ?rt1 = Some (Inr (bs, wk, rtk)) \<longrightarrow> flat_now prog rtk (body ! k)"
  proof -
    have flat': "\<forall>k<length (fbody ?new). \<forall>bs wk rtk.
            stepN k prog ?w1 ?rt1 = Some (Inr (bs, wk, rtk)) \<longrightarrow> flat_now prog rtk (fbody ?new ! k)"
      using flat by simp
    from drain_frame [OF st _ flat' face1]
    have body: "\<And>k. k \<le> length body \<Longrightarrow> \<exists>wk rtk.
              stepN k prog ?w1 ?rt1 = Some (Inr (replicate k True, wk, rtk))
              \<and> stack rtk = fs @ [?new\<lparr> fpc := k \<rparr>]"
      and drained: "\<exists>w2 rt2. stepN (Suc (length body)) prog ?w1 ?rt1
                        = Some (Inr (replicate (Suc (length body)) True, w2, rt2))
              \<and> stack rt2 = fs \<and> pc rt2 = pc ?rt1"
      by simp_all
    have A: "\<forall>k\<le>length body. \<exists>wk rtk.
              stepN k prog ?w1 ?rt1 = Some (Inr (replicate k True, wk, rtk))
              \<and> length (stack rtk) = Suc (length (stack rt))
              \<and> fname (last (stack rtk)) = f
              \<and> active_list prog rtk = body \<and> active_pc rtk = k"
    proof (intro allI impI)
      fix k assume "k \<le> length body"
      from body [OF this] obtain wk rtk where
        r: "stepN k prog ?w1 ?rt1 = Some (Inr (replicate k True, wk, rtk))"
        and s: "stack rtk = fs @ [?new\<lparr> fpc := k \<rparr>]" by blast
      from s len have "length (stack rtk) = Suc (length (stack rt))"
        "fname (last (stack rtk)) = f" "active_list prog rtk = body" "active_pc rtk = k"
        by (simp_all add: active_list_def active_pc_def)
      with r show "\<exists>wk rtk. stepN k prog ?w1 ?rt1 = Some (Inr (replicate k True, wk, rtk))
              \<and> length (stack rtk) = Suc (length (stack rt))
              \<and> fname (last (stack rtk)) = f
              \<and> active_list prog rtk = body \<and> active_pc rtk = k"
        by blast
    qed
    from drained obtain w2 rt2 where
      r2: "stepN (Suc (length body)) prog ?w1 ?rt1
             = Some (Inr (replicate (Suc (length body)) True, w2, rt2))"
      and s2: "stack rt2 = fs" "pc rt2 = pc ?rt1" by blast
    from ret [OF s2] s2 len
    have B: "\<exists>w2 rt2. stepN (Suc (length body)) prog ?w1 ?rt1
                      = Some (Inr (replicate (Suc (length body)) True, w2, rt2))
              \<and> length (stack rt2) = length (stack rt)
              \<and> active_list prog rt2 = active_list prog rt
              \<and> active_pc rt2 = Suc (active_pc rt)"
      using r2 by auto
    from A B show ?thesis by blast
  qed
  with step show ?thesis by blast
qed

text \<open>A call of an inherited name whose body has a positive \<open>length\<close> pushes a frame too,
  and the next step raises.\<close>

lemma inherited_call_raises:
  "stepN 2 \<lparr> stmts = [SCall ''constructor''], functions_tbl = Map.empty \<rparr> makeInitialWorld makeRuntime
     = Some (Inl TypeError)"
proof -
  let ?P = "\<lparr> stmts = [SCall ''constructor''], functions_tbl = Map.empty \<rparr>"
  let ?f = "\<lparr> fname = ''constructor'', fpc = 0, fbody = [SUndefined] \<rparr>"
  let ?W = "makeInitialWorld\<lparr> message := ''CALL constructor'' \<rparr>"
  let ?R = "makeRuntime\<lparr> pc := 1, stack := [?f] \<rparr>"
  have l: "lookup_function ?P ''constructor'' = Some [SUndefined]"
    by (simp add: lookup_function_def inherited_def object_prototype_def host_body_def)
  have s1: "stepProgram makeInitialWorld ?P makeRuntime = Some (Inr (True, ?W, ?R))"
    by (subst stepProgram_top) (simp_all add: makeRuntime_def exec_call_defined [OF l] advance_def)
  have s2: "stepProgram ?W ?P ?R = Some (Inl TypeError)"
    by (subst stepProgram_frame [where fs = "[]" and fr = ?f]) (simp_all add: exec_undefined)
  show ?thesis unfolding numeral_2_eq_2 by (simp add: s1 s2 del: One_nat_def)
qed

lemma stepN_None: "stepProgram w prog rt = None \<Longrightarrow> stepN (Suc n) prog w rt = None"
  by simp

text \<open>As stated for every program, the claim fails in each of the following cases, where
  the body of \<open>Patrol\<close> is a single statement (so \<open>N = 1\<close>) and the call of \<open>Patrol\<close> is
  followed by \<open>N + 1 = 2\<close> further steps. When the statement calls another declared
  function, both frames are still on the stack after the two steps. When it calls the
  name \<open>toString\<close>, which the function table inherits, a frame is pushed for it and
  popped again, and the frame of \<open>Patrol\<close> is still on the stack. When it is a conditional
  that selects its branch, the frame of the branch is on the stack above that of \<open>Patrol\<close>,
  whose counter has not moved. When it is a move by \<open>10^16\<close>, the step that executes it
  does not return.\<close>

theorem call_nested_counterexample:
  "functions_tbl nested_prog ''Patrol'' = Some [SCall ''Inner'']
   \<and> stepProgram makeInitialWorld nested_prog makeRuntime
       = Some (Inr (True, called_world, called [SCall ''Inner'']))
   \<and> stepN 2 nested_prog called_world (called [SCall ''Inner''])
       = Some (Inr ([True, True], makeInitialWorld\<lparr> message := ''CALL Inner'' \<rparr>,
            makeRuntime\<lparr> pc := 1, stack := [\<lparr> fname = ''Patrol'', fpc = 1, fbody = [SCall ''Inner''] \<rparr>,
                                               \<lparr> fname = ''Inner'', fpc = 1, fbody = [SNoop] \<rparr>] \<rparr>))
   \<and> functions_tbl inherited_call_prog ''Patrol'' = Some [SCall ''toString'']
   \<and> stepProgram makeInitialWorld inherited_call_prog makeRuntime
       = Some (Inr (True, called_world, called [SCall ''toString'']))
   \<and> stepN 2 inherited_call_prog called_world (called [SCall ''toString''])
       = Some (Inr ([True, True], makeInitialWorld\<lparr> message := ''CALL toString'' \<rparr>,
            makeRuntime\<lparr> pc := 1, stack := [\<lparr> fname = ''Patrol'', fpc = 1, fbody = [SCall ''toString''] \<rparr>] \<rparr>))
   \<and> functions_tbl branch_prog ''Patrol'' = Some [SIf (ENumber (Fin 1)) SNoop None]
   \<and> stepProgram makeInitialWorld branch_prog makeRuntime
       = Some (Inr (True, called_world, called [SIf (ENumber (Fin 1)) SNoop None]))
   \<and> stepN 2 branch_prog called_world (called [SIf (ENumber (Fin 1)) SNoop None])
       = Some (Inr ([True, True], called_world,
            makeRuntime\<lparr> pc := 1,
               stack := [\<lparr> fname = ''Patrol'', fpc = 0, fbody = [SIf (ENumber (Fin 1)) SNoop None] \<rparr>,
                         \<lparr> fname = ''<if>'', fpc = 1, fbody = [SNoop] \<rparr>] \<rparr>))
   \<and> functions_tbl long_move_prog ''Patrol'' = Some [SMove (ENumber (Fin (10 ^ 16))) ''FORWARD'']
   \<and> stepProgram makeInitialWorld long_move_prog makeRuntime
       = Some (Inr (True, called_world, called [SMove (ENumber (Fin (10 ^ 16))) ''FORWARD'']))
   \<and> stepN 2 long_move_prog called_world (called [SMove (ENumber (Fin (10 ^ 16))) ''FORWARD'']) = None"
proof -
  let ?W1 = called_world
  have call: "stepProgram makeInitialWorld P makeRuntime = Some (Inr (True, ?W1, called body))"
    if "stmts P = [SCall ''Patrol'', SNoop]" "functions_tbl P ''Patrol'' = Some body" for P body
    by (subst stepProgram_top)
       (simp_all add: that makeRuntime_def exec_call_defined [OF lookup_function_own [OF that(2)]]
          advance_def called_def called_world_def)
  \<comment> \<open>a call of another declared function\<close>
  let ?pf = "\<lparr> fname = ''Patrol'', fpc = 0, fbody = [SCall ''Inner''] \<rparr>"
  let ?if = "\<lparr> fname = ''Inner'', fpc = 0, fbody = [SNoop] \<rparr>"
  let ?W2 = "makeInitialWorld\<lparr> message := ''CALL Inner'' \<rparr>"
  let ?R2 = "makeRuntime\<lparr> pc := 1, stack := [?pf\<lparr> fpc := 1 \<rparr>, ?if] \<rparr>"
  let ?R3 = "makeRuntime\<lparr> pc := 1, stack := [?pf\<lparr> fpc := 1 \<rparr>, ?if\<lparr> fpc := 1 \<rparr>] \<rparr>"
  have f1: "functions_tbl nested_prog ''Patrol'' = Some [SCall ''Inner'']"
    and f2: "functions_tbl nested_prog ''Inner'' = Some [SNoop]"
    and st1: "stmts nested_prog = [SCall ''Patrol'', SNoop]"
    by (simp_all add: nested_prog_def)
  have a1: "stepProgram ?W1 nested_prog (called [SCall ''Inner'']) = Some (Inr (True, ?W2, ?R2))"
    unfolding called_def called_world_def
    by (subst stepProgram_frame [where fs = "[]" and fr = ?pf])
       (simp_all add: exec_call_defined [OF lookup_function_own [OF f2]] advance_def)
  have a2: "stepProgram ?W2 nested_prog ?R2 = Some (Inr (True, ?W2, ?R3))"
    by (subst stepProgram_frame [where fs = "[?pf\<lparr> fpc := 1 \<rparr>]" and fr = ?if])
       (simp_all add: exec_noop advance_def)
  have A: "stepN 2 nested_prog ?W1 (called [SCall ''Inner'']) = Some (Inr ([True, True], ?W2, ?R3))"
    unfolding numeral_2_eq_2 by (rule stepN_Cons [OF a1], rule stepN_Cons [OF a2], rule stepN_0)
  \<comment> \<open>a call of an inherited name\<close>
  let ?qf = "\<lparr> fname = ''Patrol'', fpc = 0, fbody = [SCall ''toString''] \<rparr>"
  let ?tf = "\<lparr> fname = ''toString'', fpc = 0, fbody = [] \<rparr>"
  let ?W3 = "makeInitialWorld\<lparr> message := ''CALL toString'' \<rparr>"
  let ?S2 = "makeRuntime\<lparr> pc := 1, stack := [?qf\<lparr> fpc := 1 \<rparr>, ?tf] \<rparr>"
  let ?S3 = "makeRuntime\<lparr> pc := 1, stack := [?qf\<lparr> fpc := 1 \<rparr>] \<rparr>"
  have g1: "functions_tbl inherited_call_prog ''Patrol'' = Some [SCall ''toString'']"
    and st2: "stmts inherited_call_prog = [SCall ''Patrol'', SNoop]"
    by (simp_all add: inherited_call_prog_def)
  have g2: "lookup_function inherited_call_prog ''toString'' = Some []"
    by (simp add: lookup_function_def inherited_call_prog_def inherited_def object_prototype_def
          host_body_def)
  have b1: "stepProgram ?W1 inherited_call_prog (called [SCall ''toString'']) = Some (Inr (True, ?W3, ?S2))"
    unfolding called_def called_world_def
    by (subst stepProgram_frame [where fs = "[]" and fr = ?qf])
       (simp_all add: exec_call_defined [OF g2] advance_def)
  have b2: "stepProgram ?W3 inherited_call_prog ?S2 = Some (Inr (True, ?W3, ?S3))"
    by (subst stepProgram_pop [where fs = "[?qf\<lparr> fpc := 1 \<rparr>]" and fr = ?tf]) simp_all
  have B: "stepN 2 inherited_call_prog ?W1 (called [SCall ''toString'']) = Some (Inr ([True, True], ?W3, ?S3))"
    unfolding numeral_2_eq_2 by (rule stepN_Cons [OF b1], rule stepN_Cons [OF b2], rule stepN_0)
  \<comment> \<open>a conditional that selects its branch\<close>
  let ?c = "SIf (ENumber (Fin 1)) SNoop None"
  let ?rf = "\<lparr> fname = ''Patrol'', fpc = 0, fbody = [?c] \<rparr>"
  let ?bf = "\<lparr> fname = ''<if>'', fpc = 0, fbody = [SNoop] \<rparr>"
  let ?T2 = "makeRuntime\<lparr> pc := 1, stack := [?rf, ?bf] \<rparr>"
  let ?T3 = "makeRuntime\<lparr> pc := 1, stack := [?rf, ?bf\<lparr> fpc := 1 \<rparr>] \<rparr>"
  have h1: "functions_tbl branch_prog ''Patrol'' = Some [?c]"
    and st3: "stmts branch_prog = [SCall ''Patrol'', SNoop]"
    by (simp_all add: branch_prog_def)
  have c1: "stepProgram ?W1 branch_prog (called [?c]) = Some (Inr (True, ?W1, ?T2))"
    unfolding called_def
    by (subst stepProgram_frame [where fs = "[]" and fr = ?rf])
       (simp_all add: exec_if_chosen [where ch = SNoop])
  have c2: "stepProgram ?W1 branch_prog ?T2 = Some (Inr (True, ?W1, ?T3))"
    by (subst stepProgram_frame [where fs = "[?rf]" and fr = ?bf])
       (simp_all add: exec_noop advance_def)
  have C: "stepN 2 branch_prog ?W1 (called [?c]) = Some (Inr ([True, True], ?W1, ?T3))"
    unfolding numeral_2_eq_2 by (rule stepN_Cons [OF c1], rule stepN_Cons [OF c2], rule stepN_0)
  \<comment> \<open>a move by more than the largest value of the loop counter\<close>
  let ?m = "SMove (ENumber (Fin (10 ^ 16))) ''FORWARD''"
  let ?mf = "\<lparr> fname = ''Patrol'', fpc = 0, fbody = [?m] \<rparr>"
  have k1: "functions_tbl long_move_prog ''Patrol'' = Some [?m]"
    and st4: "stmts long_move_prog = [SCall ''Patrol'', SNoop]"
    by (simp_all add: long_move_prog_def)
  have v: "move_vector (player ?W1) ''FORWARD'' = Inr (0, -1)"
    by (simp add: move_vector_def DIRS_def makeInitialWorld_def called_world_def)
  have amt: "loop_bound (move_amount (getVal (ENumber (Fin (10 ^ 16))) (called [?m]))) = enat (10 ^ 16)"
    by (simp add: move_amount_def loop_bound_def)
  have "enat counter_max < enat (10 ^ 16)" by (simp add: counter_max_def)
  from tankMove_unbounded [OF v this]
  have "tankMove ?W1 ''FORWARD'' (loop_bound (move_amount (getVal (ENumber (Fin (10 ^ 16))) (called [?m])))) = None"
    by (simp only: amt)
  from exec_move_fail(1) [OF this]
  have "exec_stmt (Some (length ([] :: Frame list))) ?m ?W1 long_move_prog (called [?m]) = None" .
  moreover have "stepProgram ?W1 long_move_prog (called [?m])
      = exec_stmt (Some (length ([] :: Frame list))) ?m ?W1 long_move_prog (called [?m])"
    by (subst stepProgram_frame [where fs = "[]" and fr = ?mf]) (simp_all add: called_def)
  ultimately have d1: "stepProgram ?W1 long_move_prog (called [?m]) = None" by simp
  have D: "stepN 2 long_move_prog ?W1 (called [?m]) = None"
    unfolding numeral_2_eq_2 by (rule stepN_None [OF d1])
  from f1 call [OF st1 f1] A g1 call [OF st2 g1] B h1 call [OF st3 h1] C k1 call [OF st4 k1] D
  show ?thesis by simp
qed

theorem call_drains_flat_body_witness:
  "active_stmt patrol_prog makeRuntime = Some (SCall ''Patrol'')
   \<and> functions_tbl patrol_prog ''Patrol''
        = Some [SMove (ENumber (Fin 1)) ''LEFT'', SMove (ENumber (Fin 1)) ''RIGHT'']
   \<and> facing_ok (player makeInitialWorld)
   \<and> (\<exists>w1 rt1. stepProgram makeInitialWorld patrol_prog makeRuntime = Some (Inr (True, w1, rt1))
        \<and> (\<forall>k<2. \<forall>bs wk rtk. stepN k patrol_prog w1 rt1 = Some (Inr (bs, wk, rtk)) \<longrightarrow>
              flat_now patrol_prog rtk ([SMove (ENumber (Fin 1)) ''LEFT'', SMove (ENumber (Fin 1)) ''RIGHT''] ! k))
        \<and> (\<exists>w2 rt2. stepN 3 patrol_prog w1 rt1 = Some (Inr ([True, True, True], w2, rt2))
              \<and> stack rt2 = [] \<and> active_list patrol_prog rt2 = stmts patrol_prog
              \<and> active_pc rt2 = 1))"
proof -
  let ?body = "[SMove (ENumber (Fin 1)) ''LEFT'', SMove (ENumber (Fin 1)) ''RIGHT'']"
  have act: "active_stmt patrol_prog makeRuntime = Some (SCall ''Patrol'')"
    by (simp add: active_stmt_def active_list_def active_pc_def makeRuntime_def patrol_prog_def)
  have def: "functions_tbl patrol_prog ''Patrol'' = Some ?body"
    by (simp add: patrol_prog_def)
  have face: "facing_ok (player makeInitialWorld)" by (simp add: facing_ok_def makeInitialWorld_def)
  have e: "stack makeRuntime = []" "pc makeRuntime = 0"
    by (simp_all add: makeRuntime_def)
  have al: "active_list patrol_prog makeRuntime = stmts patrol_prog" "active_pc makeRuntime = 0"
    by (simp_all add: active_top e)
  have one: "flat_now patrol_prog r (SMove (ENumber (Fin 1)) d)" for r d
    by (simp add: move_amount_def loop_bound_def counter_max_def one_enat_def [symmetric])
  have flat: "\<forall>k<length ?body. \<forall>bs wk rtk. stepN k patrol_prog w1 rt1 = Some (Inr (bs, wk, rtk))
                \<longrightarrow> flat_now patrol_prog rtk (?body ! k)" for w1 rt1
    using one by (simp add: less_Suc_eq nth_Cons')
  from call_drains_flat_body [OF act def face]
  obtain w1 rt1 where
    s: "stepProgram makeInitialWorld patrol_prog makeRuntime = Some (Inr (True, w1, rt1))"
    and r: "(\<forall>k<length ?body. \<forall>bs wk rtk. stepN k patrol_prog w1 rt1 = Some (Inr (bs, wk, rtk))
                \<longrightarrow> flat_now patrol_prog rtk (?body ! k))
        \<longrightarrow> (\<exists>w2 rt2. stepN (Suc (length ?body)) patrol_prog w1 rt1
                       = Some (Inr (replicate (Suc (length ?body)) True, w2, rt2))
               \<and> length (stack rt2) = length (stack makeRuntime)
               \<and> active_list patrol_prog rt2 = active_list patrol_prog makeRuntime
               \<and> active_pc rt2 = Suc (active_pc makeRuntime))"
    by blast
  from r flat [of w1 rt1] obtain w2 rt2 where
    "stepN (Suc (length ?body)) patrol_prog w1 rt1
       = Some (Inr (replicate (Suc (length ?body)) True, w2, rt2))"
    "length (stack rt2) = length (stack makeRuntime)"
    "active_list patrol_prog rt2 = active_list patrol_prog makeRuntime"
    "active_pc rt2 = Suc (active_pc makeRuntime)"
    by blast
  then have "stepN 3 patrol_prog w1 rt1 = Some (Inr ([True, True, True], w2, rt2))
              \<and> stack rt2 = [] \<and> active_list patrol_prog rt2 = stmts patrol_prog
              \<and> active_pc rt2 = 1"
    by (simp add: e al numeral_3_eq_3)
  moreover have "\<forall>k<2. \<forall>bs wk rtk. stepN k patrol_prog w1 rt1 = Some (Inr (bs, wk, rtk)) \<longrightarrow>
              flat_now patrol_prog rtk (?body ! k)"
    using flat [of w1 rt1] by simp
  ultimately show ?thesis using act def face s by blast
qed

subsection \<open>Evaluation of the lexer and the parser on concrete text\<close>

lemmas char_eval = is_space_def is_digit_def is_upper_def is_lower_def is_word_def is_line_end_def
  upper_char_def lower_char_def ch_eq_def Let_def

lemmas rx_defs = sp_def ident_def rx_comment_def rx_function_head_def rx_end_def rx_var_def
  rx_function_def rx_if_head_def rx_if_def rx_assign_head_def rx_assign_def rx_move_head_def
  rx_move_def rx_turn_head_def rx_turn_def rx_scan_def rx_attack_def rx_call_head_def rx_call_def
  Plus_def PlusLazy_def Opt_def

lemmas rx_eval = rx_test_def rx_exec_def rx_remove_first_def one_char_def

lemmas lex_eval = tokenize_def source_lines_def stripComments_def trim_def statement_tokens_def
  is_function_head_def is_end_def

lemmas num_eval = Number_js_def parse_unsigned_decimal_def parse_exponent_def prefixed_def
  all_digits_def digits_val_def digit_val_def negate_def is_hex_def is_octal_def is_binary_def
  decimal_value_def round_ratio_def binade_def scaled_def round_half_even_def pow2_def bits.simps

lemmas parse_eval = parseStmt_def parseSimple_def parseExpr_def with_semicolon_def endsWith_def
  cap_def toUpperCase_def List.map_filter_def

lemma scenario_tokens:
  "tokenize scenario_src = [''MOVEMENT = 2;'', ''SCAN_FOR_ENEMY;'',
      ''IF $ENEMY THEN ATTACK ELSE MOVE $MOVEMENT FORWARD;'']"
  by (simp add: scenario_src_def lex_eval rx_defs rx_eval char_eval)

lemma assign_capture:
  "rx_exec False rx_assign ''MOVEMENT = 2;'' = Some [1 \<mapsto> ''MOVEMENT'', 2 \<mapsto> ''2;'']"
  by (simp add: rx_defs rx_eval char_eval)

lemma number_with_semicolon: "Number_js ''2;'' = None"
  by (simp add: num_eval trim_def char_eval)

lemma scenario_stmt1:
  "parseStmt ''MOVEMENT = 2;'' = Ran (Some (SAssign ''MOVEMENT'' (ENumber (Fin 0))))"
  by (simp add: parse_eval lex_eval num_eval rx_defs rx_eval char_eval)

lemma scenario_stmt2: "parseStmt ''SCAN_FOR_ENEMY;'' = Ran (Some SScan)"
  by (simp add: parse_eval lex_eval num_eval rx_defs rx_eval char_eval)

lemma scenario_stmt3:
  "parseStmt ''IF $ENEMY THEN ATTACK ELSE MOVE $MOVEMENT FORWARD;''
     = Ran (Some (SIf (EVar ''ENEMY'') SAttack (Some (SMove (EVar ''MOVEMENT'') ''FORWARD''))))"
  by (simp add: parse_eval lex_eval num_eval rx_defs rx_eval char_eval)

lemma scenario_program: "parseProgram scenario_src = Ran scenario_parsed"
  by (simp add: parseProgram_def scenario_tokens scenario_stmt1 scenario_stmt2 scenario_stmt3
        scenario_parsed_def replaces_prototype_def)

subsection \<open>The three-statement scenario\<close>

text \<open>Claim C2 describes five steps of the program parsed from the scenario text, starting
  with a fresh runtime in a world where the tanks share no axis, and says that step 1 stores
  \<open>MOVEMENT = 2\<close> and step 4 moves the actor two cells with the message \<open>MOVE 2 FORWARD\<close>.
  On the code, the greedy group of the assignment pattern captures the text \<open>2;\<close> with its
  semicolon (\<open>assign_capture\<close>), which is not a number (\<open>number_with_semicolon\<close>), so the
  parser stores the literal 0. The five steps from the initial world are evaluated below:
  step 1 stores \<open>MOVEMENT = 0\<close>, step 2 stores \<open>ENEMY = 0\<close> with the message
  \<open>No enemy in sight.\<close>, step 3 pushes the frame of the else-branch, step 4 leaves the actor
  where it is with the message \<open>MOVE 0 FORWARD\<close>, and step 5 pops the frame.\<close>

theorem scenario_assignment_stores_zero:
  "parseProgram scenario_src = Ran scenario_parsed
   \<and> stepProgram makeInitialWorld scenario_parsed makeRuntime
       = Some (Inr (True, makeInitialWorld\<lparr> message := ''$MOVEMENT = 0'' \<rparr>,
            makeRuntime\<lparr> pc := 1, vars := [''MOVEMENT'' \<mapsto> Fin 0] \<rparr>))
   \<and> stepProgram (makeInitialWorld\<lparr> message := ''$MOVEMENT = 0'' \<rparr>) scenario_parsed
         (makeRuntime\<lparr> pc := 1, vars := [''MOVEMENT'' \<mapsto> Fin 0] \<rparr>)
       = Some (Inr (True, makeInitialWorld\<lparr> message := ''No enemy in sight.'' \<rparr>,
            makeRuntime\<lparr> pc := 2, vars := [''MOVEMENT'' \<mapsto> Fin 0, ''ENEMY'' \<mapsto> Fin 0] \<rparr>))
   \<and> stepProgram (makeInitialWorld\<lparr> message := ''No enemy in sight.'' \<rparr>) scenario_parsed
         (makeRuntime\<lparr> pc := 2, vars := [''MOVEMENT'' \<mapsto> Fin 0, ''ENEMY'' \<mapsto> Fin 0] \<rparr>)
       = Some (Inr (True, makeInitialWorld\<lparr> message := ''No enemy in sight.'' \<rparr>,
            makeRuntime\<lparr> pc := 2, vars := [''MOVEMENT'' \<mapsto> Fin 0, ''ENEMY'' \<mapsto> Fin 0],
               stack := [\<lparr> fname = ''<if>'', fpc = 0, fbody = [SMove (EVar ''MOVEMENT'') ''FORWARD''] \<rparr>] \<rparr>))
   \<and> stepProgram (makeInitialWorld\<lparr> message := ''No enemy in sight.'' \<rparr>) scenario_parsed
         (makeRuntime\<lparr> pc := 2, vars := [''MOVEMENT'' \<mapsto> Fin 0, ''ENEMY'' \<mapsto> Fin 0],
               stack := [\<lparr> fname = ''<if>'', fpc = 0, fbody = [SMove (EVar ''MOVEMENT'') ''FORWARD''] \<rparr>] \<rparr>)
       = Some (Inr (True, makeInitialWorld\<lparr> message := ''MOVE 0 FORWARD'' \<rparr>,
            makeRuntime\<lparr> pc := 2, vars := [''MOVEMENT'' \<mapsto> Fin 0, ''ENEMY'' \<mapsto> Fin 0],
               stack := [\<lparr> fname = ''<if>'', fpc = 1, fbody = [SMove (EVar ''MOVEMENT'') ''FORWARD''] \<rparr>] \<rparr>))
   \<and> stepProgram (makeInitialWorld\<lparr> message := ''MOVE 0 FORWARD'' \<rparr>) scenario_parsed
         (makeRuntime\<lparr> pc := 2, vars := [''MOVEMENT'' \<mapsto> Fin 0, ''ENEMY'' \<mapsto> Fin 0],
               stack := [\<lparr> fname = ''<if>'', fpc = 1, fbody = [SMove (EVar ''MOVEMENT'') ''FORWARD''] \<rparr>] \<rparr>)
       = Some (Inr (True, makeInitialWorld\<lparr> message := ''MOVE 0 FORWARD'' \<rparr>,
            makeRuntime\<lparr> pc := 2, vars := [''MOVEMENT'' \<mapsto> Fin 0, ''ENEMY'' \<mapsto> Fin 0] \<rparr>))"
proof -
  let ?P = scenario_parsed
  let ?mv = "SMove (EVar ''MOVEMENT'') ''FORWARD''"
  let ?W0 = makeInitialWorld
  let ?W1 = "makeInitialWorld\<lparr> message := ''$MOVEMENT = 0'' \<rparr>"
  let ?W2 = "makeInitialWorld\<lparr> message := ''No enemy in sight.'' \<rparr>"
  let ?W4 = "makeInitialWorld\<lparr> message := ''MOVE 0 FORWARD'' \<rparr>"
  let ?R1 = "makeRuntime\<lparr> pc := 1, vars := [''MOVEMENT'' \<mapsto> Fin 0] \<rparr>"
  let ?R2 = "makeRuntime\<lparr> pc := 2, vars := [''MOVEMENT'' \<mapsto> Fin 0, ''ENEMY'' \<mapsto> Fin 0] \<rparr>"
  let ?f = "\<lparr> fname = ''<if>'', fpc = 0, fbody = [?mv] \<rparr>"
  let ?R3 = "makeRuntime\<lparr> pc := 2, vars := [''MOVEMENT'' \<mapsto> Fin 0, ''ENEMY'' \<mapsto> Fin 0], stack := [?f] \<rparr>"
  let ?R4 = "makeRuntime\<lparr> pc := 2, vars := [''MOVEMENT'' \<mapsto> Fin 0, ''ENEMY'' \<mapsto> Fin 0],
                 stack := [?f\<lparr> fpc := 1 \<rparr>] \<rparr>"
  have st: "stmts ?P = [SAssign ''MOVEMENT'' (ENumber (Fin 0)), SScan, SIf (EVar ''ENEMY'') SAttack (Some ?mv)]"
    by (simp add: scenario_parsed_def)
  have s1: "stepProgram ?W0 ?P makeRuntime = Some (Inr (True, ?W1, ?R1))"
    by (subst stepProgram_top)
       (simp_all add: st makeRuntime_def exec_assign advance_def numToString_def show_int_def digit_char_def)
  have los: "lineOfSight (player ?W0) (enemy ?W0) = \<lparr> seen = False, distance = 999, dirOk = False \<rparr>"
    by (simp add: makeInitialWorld_def lineOfSight_def GRID_def)
  have sc: "tankScan ?W1 ?R1 = (?W2, ?R2\<lparr> pc := 1 \<rparr>)"
    by (simp add: tankScan_def los Let_def makeRuntime_def)
  have s2: "stepProgram ?W1 ?P ?R1 = Some (Inr (True, ?W2, ?R2))"
  proof -
    have "stepProgram ?W1 ?P ?R1 = exec_stmt None SScan ?W1 ?P ?R1"
      by (subst stepProgram_top) (simp_all add: st makeRuntime_def)
    also have "\<dots> = Some (Inr (True, ?W2, ?R2))"
      unfolding exec_scan sc by (simp add: advance_def makeRuntime_def)
    finally show ?thesis .
  qed
  have s3: "stepProgram ?W2 ?P ?R2 = Some (Inr (True, ?W2, ?R3))"
  proof -
    have "stepProgram ?W2 ?P ?R2 = exec_stmt None (SIf (EVar ''ENEMY'') SAttack (Some ?mv)) ?W2 ?P ?R2"
      by (subst stepProgram_top) (simp_all add: st makeRuntime_def)
    also have "\<dots> = Some (Inr (True, ?W2, ?R3))"
      by (subst exec_if_chosen [where ch = ?mv]) (simp_all add: makeRuntime_def read_var_def)
    finally show ?thesis .
  qed
  have v: "move_vector (player ?W2) ''FORWARD'' = Inr (0, -1)"
    by (simp add: move_vector_def DIRS_def makeInitialWorld_def)
  have a: "move_amount (getVal (EVar ''MOVEMENT'') ?R3) = Some (enat 0)"
    by (simp add: move_amount_def read_var_def)
  have t: "tankMove ?W2 ''FORWARD'' (loop_bound (move_amount (getVal (EVar ''MOVEMENT'') ?R3))) = Some (Inr ?W2)"
    unfolding a by (simp add: tankMove_enat [OF v] loop_bound_def)
  have s4: "stepProgram ?W2 ?P ?R3 = Some (Inr (True, ?W4, ?R4))"
  proof -
    have "stepProgram ?W2 ?P ?R3 = exec_stmt (Some (length ([] :: Frame list))) ?mv ?W2 ?P ?R3"
      by (subst stepProgram_frame [where fs = "[]" and fr = ?f]) simp_all
    also have "\<dots> = Some (Inr (True, ?W2\<lparr> message := ''MOVE '' @ show_amount (Some (enat 0)) @ '' '' @ ''FORWARD'' \<rparr>,
                advance (Some (length ([] :: Frame list))) ?R3))"
      unfolding exec_move [OF t] a ..
    also have "\<dots> = Some (Inr (True, ?W4, ?R4))"
      by (simp add: show_amount_def digit_char_def advance_def)
    finally show ?thesis .
  qed
  have s5: "stepProgram ?W4 ?P ?R4 = Some (Inr (True, ?W4, ?R2))"
    by (subst stepProgram_pop [where fs = "[]" and fr = "?f\<lparr> fpc := 1 \<rparr>"])
       (simp_all add: makeRuntime_def)
  from scenario_program s1 s2 s3 s4 s5 show ?thesis by simp
qed

subsection \<open>Expressions\<close>

lemma star_greedy_class_eol:
  "length r \<le> n \<Longrightarrow>
   (star_greedy (one_char p) n (\<lambda>st. if fst (snd st) = [] then Some st else None) (b, r, c) \<noteq> None)
     = list_all p r"
proof (induction n arbitrary: b r)
  case 0
  then show ?case by simp
next
  case (Suc n)
  show ?case
  proof (cases r)
    case Nil
    then show ?thesis by (simp add: one_char_def)
  next
    case (Cons x xs)
    with Suc.prems have "length xs \<le> n" by simp
    from Suc.IH [OF this, of "x # b"] Cons show ?thesis
      by (auto simp: one_char_def split: option.splits)
  qed
qed

lemma rx_search_bol:
  "b \<noteq> [] \<Longrightarrow> rx_search ic (Seq Bol r) b s = None"
  by (induction s arbitrary: b) simp_all

lemma rx_test_bol:
  "rx_test ic (Seq Bol r) s = (rx_match ic r Some ([], s, Map.empty) \<noteq> None)"
  by (cases s) (auto simp: rx_test_def rx_search_bol split: option.splits)

lemma ident_start_class:
  "(\<exists>i \<in> set [CRange CHR ''A'' CHR ''Z'', CRange CHR ''a'' CHR ''z'', CChar CHR ''_'']. citem_match False c i)
     = is_ident_start c"
  by (auto simp: is_ident_start_def is_upper_def is_lower_def ch_eq_def Let_def)

lemma ident_char_class:
  "(\<exists>i \<in> set [CRange CHR ''A'' CHR ''Z'', CRange CHR ''a'' CHR ''z'', CRange CHR ''0'' CHR ''9'', CChar CHR ''_'']. citem_match False c i)
     = is_ident_char c"
  by (auto simp: is_ident_char_def is_ident_start_def is_upper_def is_lower_def is_digit_def ch_eq_def Let_def)

lemma ident_char_matcher:
  "rx_match False (Cls [CRange CHR ''A'' CHR ''Z'', CRange CHR ''a'' CHR ''z'', CRange CHR ''0'' CHR ''9'', CChar CHR ''_''])
     = one_char is_ident_char"
  by (rule ext) (simp add: ident_char_class del: set_simps citem_match.simps)

lemma rx_var_iff: "rx_test False rx_var v = is_variable_token v"
proof -
  let ?eol = "\<lambda>st :: mstate. if fst (snd st) = [] then Some st else None"
  have e: "rx_match False Eol Some = ?eol" by (simp add: fun_eq_iff)
  have "rx_test False rx_var v
          = (rx_match False (Seq (Lit ''$'') (Seq ident Eol)) Some ([], v, Map.empty) \<noteq> None)"
    by (simp add: rx_var_def rx_test_bol)
  also have "\<dots> = is_variable_token v"
  proof (cases v)
    case Nil
    then show ?thesis by (simp add: is_variable_token_def)
  next
    case (Cons d r)
    show ?thesis
    proof (cases r)
      case Nil
      with Cons show ?thesis
        by (simp add: is_variable_token_def is_identifier_def ident_def one_char_def)
    next
      case (Cons x xs)
      have "(star_greedy (one_char is_ident_char) (length xs) ?eol ([x, d], xs, Map.empty) \<noteq> None)
              = list_all is_ident_char xs"
        by (rule star_greedy_class_eol) simp
      with \<open>v = d # r\<close> Cons show ?thesis
        by (simp add: is_variable_token_def is_identifier_def ident_def e ident_char_matcher
              ident_start_class ch_eq_def del: set_simps citem_match.simps)
           (auto simp: one_char_def)
    qed
  qed
  finally show ?thesis .
qed

subsection \<open>Rounding and the conversion of integer literals\<close>

lemma bits_0: "bits 0 = 0"
  by (subst bits.simps) simp

lemma bits_pos: "0 < n \<Longrightarrow> bits n = Suc (bits (n div 2))"
  by (subst bits.simps) simp

lemma bits_bounds: "0 < n \<Longrightarrow> 2 ^ (bits n - 1) \<le> n \<and> n < 2 ^ bits n"
proof (induction n rule: bits.induct)
  case (1 n)
  show ?case
  proof (cases "n div 2 = 0")
    case True
    with 1(2) have "n = 1" by (simp add: div_eq_0_iff)
    then show ?thesis by (simp add: bits_pos bits_0)
  next
    case False
    then have p: "0 < n div 2" by simp
    from 1(1) [OF _ p] 1(2) have ih: "2 ^ (bits (n div 2) - 1) \<le> n div 2" "n div 2 < 2 ^ bits (n div 2)"
      by simp_all
    have b: "bits n = Suc (bits (n div 2))" using 1(2) by (rule bits_pos)
    have pos: "0 < bits (n div 2)" using p by (simp add: bits_pos)
    then obtain j where j: "bits (n div 2) = Suc j" by (cases "bits (n div 2)") auto
    have "2 ^ (bits n - 1) = 2 * 2 ^ (bits (n div 2) - 1)"
      by (simp add: b j)
    also have "\<dots> \<le> 2 * (n div 2)" using ih(1) by simp
    also have "\<dots> \<le> n" by simp
    finally have lo: "2 ^ (bits n - 1) \<le> n" .
    have "n < 2 * (n div 2) + 2" by presburger
    also have "\<dots> \<le> 2 * 2 ^ bits (n div 2)" using ih(2) by simp
    also have "\<dots> = 2 ^ bits n" by (simp add: b)
    finally show ?thesis using lo by simp
  qed
qed

lemma bits_le: "n < 2 ^ k \<Longrightarrow> bits n \<le> k"
proof (cases "n = 0")
  case True then show ?thesis by (simp add: bits_0)
next
  case False
  assume n: "n < 2 ^ k"
  from bits_bounds [of n] False have "(2::nat) ^ (bits n - 1) \<le> n" by simp
  also note n
  finally have "bits n - 1 < k" by simp
  then show ?thesis by simp
qed

lemma bits_1: "bits (Suc 0) = Suc 0"
  by (simp add: bits_pos bits_0)

lemma round_half_even_1: "round_half_even a (Suc 0) = a"
  by (simp add: round_half_even_def)

lemma round_ratio_exact:
  assumes "n < 2 ^ 53"
  shows "round_ratio n (Suc 0) = Fin (of_nat n)"
proof (cases "n = 0")
  case True then show ?thesis by (simp add: round_ratio_def)
next
  case False
  then have pos: "0 < n" by simp
  from bits_bounds [OF pos] have lo: "2 ^ (bits n - 1) \<le> n" by simp
  from bits_le [OF assms] have hi: "bits n \<le> 53" .
  have bp: "0 < bits n" using pos by (simp add: bits_pos)
  have e: "binade n (Suc 0) = int (bits n) - 1"
    using lo bp by (simp add: binade_def scaled_def bits_1 Let_def nat_diff_distrib)
  define k where "k = 53 - bits n"
  have u: "max (binade n (Suc 0) - 52) (- 1074) = - int k"
    using hi bp by (simp add: e k_def)
  have sc: "scaled (- int k) n (Suc 0) = (n * 2 ^ k, Suc 0)"
  proof (cases "k = 0")
    case True then show ?thesis by (simp add: scaled_def)
  next
    case False
    then have "\<not> 0 \<le> - int k" "nat (- (- int k)) = k" by simp_all
    then show ?thesis by (simp only: scaled_def if_False)
  qed
  have "pow2 (- int k) = 1 / 2 ^ k"
  proof (cases "k = 0")
    case True then show ?thesis by (simp add: pow2_def)
  next
    case False
    then have "\<not> 0 \<le> - int k" "nat (- (- int k)) = k" by simp_all
    then show ?thesis by (simp only: pow2_def if_False)
  qed
  then have v: "of_nat (n * 2 ^ k) * pow2 (- int k) = (of_nat n :: rat)"
    by simp
  have ne: "- int k \<noteq> 971" by simp
  have lt: "\<not> 1024 \<le> binade n (Suc 0)" using hi by (simp add: e)
  show ?thesis
    unfolding round_ratio_def Let_def u sc
    using False lt by (simp add: round_half_even_1 v ne del: of_nat_mult)
qed

lemma bits_gt: "2 ^ k \<le> n \<Longrightarrow> k < bits n"
proof -
  assume a: "2 ^ k \<le> n"
  then have pos: "0 < n" by (cases "n = 0") auto
  from bits_bounds [OF pos] have "n < 2 ^ bits n" by simp
  with a have "(2::nat) ^ k < 2 ^ bits n" by (rule le_less_trans)
  then show ?thesis by simp
qed

lemma round_ratio_overflow:
  assumes "2 ^ k \<le> n" and "1024 \<le> k"
  shows "round_ratio n (Suc 0) = PosInf"
proof -
  from assms(1) have pos: "0 < n" by (cases "n = 0") auto
  from bits_bounds [OF pos] have lo: "2 ^ (bits n - 1) \<le> n" by simp
  from bits_gt [OF assms(1)] assms(2) have b: "1024 < bits n" by simp
  have "binade n (Suc 0) = int (bits n) - 1"
    using lo b by (simp add: binade_def scaled_def bits_1 Let_def nat_diff_distrib)
  with b pos show ?thesis by (simp add: round_ratio_def Let_def)
qed

lemma decimal_value_overflow:
  assumes "0 < m" and "1024 \<le> 3 * k"
  shows "decimal_value m (int k) = PosInf"
proof -
  have "(2::nat) ^ (3 * k) = (2 ^ 3) ^ k" by (rule power_mult)
  also have "\<dots> \<le> 10 ^ k" by (rule power_mono) simp_all
  also have "\<dots> \<le> m * 10 ^ k" using assms(1) by simp
  finally have "round_ratio (m * 10 ^ k) (Suc 0) = PosInf"
    using assms(2) by (rule round_ratio_overflow)
  then show ?thesis by (simp add: decimal_value_def)
qed

lemma Number_js_overflow: "Number_js ''1e999'' = Some PosInf"
proof -
  have "Number_js ''1e999'' = Some (decimal_value 1 999)"
    by (simp add: Number_js_def trim_def prefixed_def parse_unsigned_decimal_def parse_exponent_def
          all_digits_def digits_val_def digit_val_def char_eval)
  also have "decimal_value 1 999 = PosInf"
    using decimal_value_overflow [of 1 999] by simp
  finally show ?thesis .
qed

lemma round_ratio_number: "is_number (round_ratio n d)"
  by (simp add: round_ratio_def Let_def is_number_def)

lemma parse_unsigned_number:
  "parse_unsigned_decimal s = Some v \<Longrightarrow> is_number v"
  by (auto simp: parse_unsigned_decimal_def decimal_value_def Let_def round_ratio_number
      split: if_splits option.splits list.splits) (simp add: is_number_def)

lemma negate_number: "is_number v \<Longrightarrow> is_number (negate v)"
  by (cases v) (simp_all add: is_number_def negate_def)

lemma Number_js_number: "Number_js s = Some v \<Longrightarrow> is_number v"
  by (auto simp: Number_js_def Let_def round_ratio_number negate_number is_number_def [of "Fin 0"]
      dest!: parse_unsigned_number split: if_splits)

lemma digit_not_space: "is_digit c \<Longrightarrow> \<not> is_space c"
  by (auto simp: is_digit_def is_space_def Let_def)

lemma trim_digits: "list_all is_digit s \<Longrightarrow> trim s = s"
proof -
  assume a: "list_all is_digit s"
  have 1: "dropWhile is_space s = s"
    using a by (cases s) (auto simp: digit_not_space)
  have "list_all is_digit (rev s)" using a by (simp add: list_all_iff)
  then have 2: "dropWhile is_space (rev s) = rev s"
    by (cases "rev s") (auto simp: digit_not_space)
  show ?thesis by (simp add: trim_def 1 2)
qed

lemma digit_not_marker:
  "is_digit c \<Longrightarrow> c \<notin> {CHR ''x'', CHR ''X'', CHR ''o'', CHR ''O'', CHR ''b'', CHR ''B'', CHR ''+'', CHR ''-'', CHR ''I''}"
  by (auto simp: is_digit_def Let_def)

lemma parse_unsigned_digits:
  assumes "all_digits s"
  shows "parse_unsigned_decimal s = Some (round_ratio (digits_val 10 s) (Suc 0))"
proof -
  from assms have ne: "s \<noteq> []" and d: "list_all is_digit s" by (simp_all add: all_digits_def)
  then have "is_digit (hd s)" by (cases s) auto
  then have i: "s \<noteq> ''Infinity''" using digit_not_marker [of "hd s"] by auto
  have tw: "takeWhile is_digit s = s" "dropWhile is_digit s = []"
    using d by (simp_all add: list_all_iff)
  show ?thesis
    using ne i by (simp add: parse_unsigned_decimal_def tw decimal_value_def)
qed

lemma Number_js_digits:
  assumes "all_digits s"
  shows "Number_js s = Some (round_ratio (digits_val 10 s) (Suc 0))"
proof -
  from assms have ne: "s \<noteq> []" and d: "list_all is_digit s" by (simp_all add: all_digits_def)
  have p: "\<not> prefixed a b s" if "a \<in> {CHR ''x'', CHR ''o'', CHR ''b''}" "b \<in> {CHR ''X'', CHR ''O'', CHR ''B''}" for a b
    using d that by (auto simp: prefixed_def is_digit_def Let_def split: list.splits)
  from ne d have "is_digit (hd s)" by (cases s) auto
  then have h: "hd s \<noteq> CHR ''+''" "hd s \<noteq> CHR ''-''" using digit_not_marker [of "hd s"] by auto
  show ?thesis
    using ne h by (simp add: Number_js_def trim_digits [OF d] p parse_unsigned_digits [OF assms])
qed

lemma digits_not_variable: "all_digits s \<Longrightarrow> \<not> is_variable_token s"
  by (cases s) (auto simp: all_digits_def is_variable_token_def is_digit_def Let_def)

subsection \<open>Claim C7\<close>

text \<open>Claim C7, amended. \<open>parseExpr\<close> never fails. When the trimmed token is a \<open>$\<close>
  followed by an identifier the result is the reference to the variable named after the
  sigil. Otherwise the result is a numeric literal, which is never not-a-number: the
  value of the numeric conversion \<open>Number\<close> of the trimmed token (not an integer parse:
  it also accepts fractions, exponents, prefixed hexadecimal, octal and binary integers
  and \<open>Infinity\<close>, and it rounds to a double), or 0 when that conversion gives no number.
  In particular a token of decimal digits whose value is below \<open>2^53\<close> denotes exactly
  that integer. \<open>getVal\<close> never fails: it returns the value of a literal, the stored
  value of a bound variable, and 0 for an unbound variable whose name is not one of the
  property names that every object inherits.\<close>

theorem parseExpr_getVal_total:
  "(is_variable_token (trim tok) \<longrightarrow> parseExpr tok = EVar (tl (trim tok)))
   \<and> (\<not> is_variable_token (trim tok) \<longrightarrow>
        parseExpr tok = ENumber (case Number_js (trim tok) of Some n \<Rightarrow> n | None \<Rightarrow> Fin 0)
        \<and> is_number (case Number_js (trim tok) of Some n \<Rightarrow> n | None \<Rightarrow> Fin 0))
   \<and> (all_digits (trim tok) \<and> digits_val 10 (trim tok) < 2 ^ 53 \<longrightarrow>
        parseExpr tok = ENumber (Fin (of_nat (digits_val 10 (trim tok)))))
   \<and> getVal (ENumber v) rt = v
   \<and> (vars rt name = Some v \<longrightarrow> getVal (EVar name) rt = v)
   \<and> (vars rt name = None \<and> name \<notin> fst ` set object_prototype \<longrightarrow> getVal (EVar name) rt = Fin 0)"
proof (intro conjI impI)
  assume "is_variable_token (trim tok)"
  then show "parseExpr tok = EVar (tl (trim tok))"
    by (simp add: parseExpr_def Let_def rx_var_iff drop_Suc)
next
  assume n: "\<not> is_variable_token (trim tok)"
  then show "parseExpr tok = ENumber (case Number_js (trim tok) of Some n \<Rightarrow> n | None \<Rightarrow> Fin 0)"
    by (simp add: parseExpr_def Let_def rx_var_iff split: option.splits)
  show "is_number (case Number_js (trim tok) of Some n \<Rightarrow> n | None \<Rightarrow> Fin 0)"
    by (cases "Number_js (trim tok)") (simp_all add: Number_js_number, simp add: is_number_def)
next
  assume d: "all_digits (trim tok) \<and> digits_val 10 (trim tok) < 2 ^ 53"
  then have "Number_js (trim tok) = Some (Fin (of_nat (digits_val 10 (trim tok))))"
    by (simp add: Number_js_digits round_ratio_exact)
  with d show "parseExpr tok = ENumber (Fin (of_nat (digits_val 10 (trim tok))))"
    by (simp add: parseExpr_def Let_def rx_var_iff digits_not_variable)
next
  show "getVal (ENumber v) rt = v" by simp
next
  assume "vars rt name = Some v"
  then show "getVal (EVar name) rt = v" by (simp add: read_var_def)
next
  assume "vars rt name = None \<and> name \<notin> fst ` set object_prototype"
  then show "getVal (EVar name) rt = Fin 0"
    by (simp add: read_var_def inherited_def map_of_eq_None_iff [THEN iffD2])
qed

text \<open>As stated, the claim fails twice. The conversion is not an integer parse: the token
  \<open>2.5\<close> is parsed to the literal 5/2, which is not an integer, and \<open>Infinity\<close> to the
  infinite literal. And an unbound variable does not always read as 0: in a fresh runtime,
  where no variable is bound, \<open>getVal\<close> returns for the name \<open>constructor\<close> the object
  that the variable store inherits under that name.\<close>

theorem parseExpr_fraction_counterexample:
  "parseExpr ''2.5'' = ENumber (Fin (5 / 2)) \<and> (5 / 2 :: rat) \<notin> \<int>
   \<and> parseExpr ''Infinity'' = ENumber PosInf
   \<and> vars makeRuntime ''constructor'' = None
   \<and> getVal (EVar ''constructor'') makeRuntime = Inherited ''constructor''
   \<and> Inherited ''constructor'' \<noteq> Fin 0"
proof -
  have v: "\<not> is_variable_token ''2.5''" "\<not> is_variable_token ''Infinity''"
    by (simp_all add: is_variable_token_def)
  have t: "trim ''2.5'' = ''2.5''" "trim ''Infinity'' = ''Infinity''"
    by (simp_all add: trim_def is_space_def)
  have n1: "Number_js ''2.5'' = Some (Fin (5 / 2))"
    by (simp add: num_eval t is_digit_def Let_def)
  have n2: "Number_js ''Infinity'' = Some PosInf"
    by (simp add: Number_js_def t prefixed_def parse_unsigned_decimal_def)
  have f: "(5 / 2 :: rat) \<notin> \<int>"
  proof
    assume "(5 / 2 :: rat) \<in> \<int>"
    then obtain n :: int where "(5 / 2 :: rat) = of_int n" by (auto elim: Ints_cases)
    then have "(of_int 5 :: rat) = of_int (2 * n)" by simp
    then have "(5 :: int) = 2 * n" by (simp only: of_int_eq_iff)
    then show False by presburger
  qed
  have u: "vars makeRuntime ''constructor'' = None"
    by (simp add: makeRuntime_def)
  have g: "getVal (EVar ''constructor'') makeRuntime = Inherited ''constructor''"
    by (simp add: read_var_def u inherited_def object_prototype_def)
  have p: "parseExpr ''2.5'' = ENumber (Fin (5 / 2))" "parseExpr ''Infinity'' = ENumber PosInf"
    by (simp_all add: parseExpr_def rx_var_iff v t n1 n2 del: One_nat_def)
  from p f u g show ?thesis by simp
qed

theorem parseExpr_getVal_total_witness:
  "parseExpr '' $MOVEMENT '' = EVar ''MOVEMENT''
   \<and> parseExpr ''12'' = ENumber (Fin 12)
   \<and> parseExpr ''2;'' = ENumber (Fin 0)
   \<and> getVal (EVar ''X'') (makeRuntime\<lparr> vars := [''X'' \<mapsto> Fin 7] \<rparr>) = Fin 7
   \<and> getVal (EVar ''Y'') (makeRuntime\<lparr> vars := [''X'' \<mapsto> Fin 7] \<rparr>) = Fin 0"
proof -
  let ?rt = "makeRuntime\<lparr> vars := [''X'' \<mapsto> Fin 7] \<rparr>"
  have t: "trim '' $MOVEMENT '' = ''$MOVEMENT''" "trim ''12'' = ''12''" "trim ''2;'' = ''2;''"
    by (simp_all add: trim_def is_space_def)
  have v: "is_variable_token ''$MOVEMENT''" "\<not> is_variable_token ''12''" "\<not> is_variable_token ''2;''"
    by (simp_all add: is_variable_token_def is_identifier_def is_ident_start_def is_ident_char_def
          is_upper_def is_lower_def is_digit_def)
  have d: "all_digits ''12''" "digits_val 10 ''12'' = 12"
    by (simp_all add: all_digits_def is_digit_def digits_val_def digit_val_def)
  have n: "Number_js ''12'' = Some (Fin 12)"
    using Number_js_digits [OF d(1)] by (simp add: d(2) round_ratio_exact [of 12, simplified])
  have x: "vars ?rt ''X'' = Some (Fin 7)" "vars ?rt ''Y'' = None" by simp_all
  have y: "''Y'' \<notin> fst ` set object_prototype" by (simp add: object_prototype_def)
  from parseExpr_getVal_total [of "'' $MOVEMENT ''" "Fin 7" ?rt "''X''"]
       parseExpr_getVal_total [of "''12''" "Fin 7" ?rt "''Y''"]
       parseExpr_getVal_total [of "''2;''" "Fin 7" ?rt "''Y''"]
  show ?thesis
    by (simp only: t v d n x y number_with_semicolon) simp
qed

subsection \<open>Function blocks in the lexer\<close>


























end
